theory Spec2Isabelle
  imports Complex_Main
begin

chapter \<open>Definitions: the embedding of the source\<close>

section \<open>Python and NumPy basics\<close>

text \<open>
  Exceptions are values: a fallible operation returns \<open>py_error + 'a\<close>, with \<open>Inl\<close>
  for the exception raised.
\<close>

datatype py_error = IndexError | ValueError | AttributeError

text \<open>
  Indexing one axis of an array with an integer: a negative index counts from the end,
  an index outside \<open>-n .. n-1\<close> raises \<^verbatim>\<open>IndexError\<close>.
\<close>

definition ndarray_getitem :: "'a list \<Rightarrow> int \<Rightarrow> py_error + 'a" where
  "ndarray_getitem xs i =
     (let n = int (length xs) in
      if 0 \<le> i \<and> i < n then Inr (xs ! nat i)
      else if - n \<le> i \<and> i < 0 then Inr (xs ! nat (i + n))
      else Inl IndexError)"

section \<open>\<^verbatim>\<open>scilpy/tracking/trackable_dataset.py\<close>: class Dataset\<close>

text \<open>
  \<^verbatim>\<open>Dataset.__init__\<close> keeps the image array in \<^verbatim>\<open>self.data\<close> (made
  four-dimensional) and its shape in \<^verbatim>\<open>self.dim\<close>. The array is a nested list
  indexed \<open>[x][y][z]\<close>; an entry is the voxel's vector of channel values, of any type
  \<open>'a\<close>. The fields are \<open>ds_data\<close> for \<^verbatim>\<open>self.data\<close> and \<open>ds_dim\<close> for the
  first three entries of \<^verbatim>\<open>self.dim\<close>.
\<close>

record 'a Dataset =
  ds_data :: "'a list list list"
  ds_dim :: "int \<times> int \<times> int"

text \<open>What \<^verbatim>\<open>__init__\<close> establishes: \<^verbatim>\<open>self.dim\<close> is the shape of \<^verbatim>\<open>self.data\<close>.\<close>

definition Dataset_shape_ok :: "'a Dataset \<Rightarrow> bool" where
  "Dataset_shape_ok d =
     (case ds_dim d of (dx, dy, dz) \<Rightarrow>
        int (length (ds_data d)) = dx \<and>
        list_all (\<lambda>plane. int (length plane) = dy \<and>
                   list_all (\<lambda>row. int (length row) = dz) plane) (ds_data d))"

definition isVoxelInBound :: "'a Dataset \<Rightarrow> int \<Rightarrow> int \<Rightarrow> int \<Rightarrow> bool" where
  "isVoxelInBound d x y z =
     (case ds_dim d of (dx, dy, dz) \<Rightarrow>
        x < dx \<and> y < dy \<and> z < dz \<and> x \<ge> 0 \<and> y \<ge> 0 \<and> z \<ge> 0)"

text \<open>The coordinates \<^verbatim>\<open>getVoxelValue\<close> indexes with, after its \<^verbatim>\<open>if\<close>.\<close>

definition getVoxelValue_coords :: "'a Dataset \<Rightarrow> int \<Rightarrow> int \<Rightarrow> int \<Rightarrow> int \<times> int \<times> int" where
  "getVoxelValue_coords d x y z =
     (case ds_dim d of (dx, dy, dz) \<Rightarrow>
        if \<not> isVoxelInBound d x y z
        then (max 0 (min (dx - 1) x), max 0 (min (dy - 1) y), max 0 (min (dz - 1) z))
        else (x, y, z))"

definition getVoxelValue :: "'a Dataset \<Rightarrow> int \<Rightarrow> int \<Rightarrow> int \<Rightarrow> py_error + 'a" where
  "getVoxelValue d x y z =
     (case getVoxelValue_coords d x y z of (x', y', z') \<Rightarrow>
        (case ndarray_getitem (ds_data d) x' of
           Inl e \<Rightarrow> Inl e
         | Inr plane \<Rightarrow>
            (case ndarray_getitem plane y' of
               Inl e \<Rightarrow> Inl e
             | Inr row \<Rightarrow> ndarray_getitem row z')))"

section \<open>NumPy's \<^verbatim>\<open>RandomState\<close>, as the seeding code uses it\<close>

text \<open>
  The generator is library code; it is a parameter of the model. A generator state has
  type \<open>'s\<close>:
  \<^item> \<open>rs_seed\<close> is the state \<^verbatim>\<open>np.random.RandomState(seed)\<close> starts in, for a seed
    the constructor accepts;
  \<^item> \<open>rs_shuffle\<close> is \<^verbatim>\<open>shuffle\<close>: the permuted list and the state it leaves;
  \<^item> \<open>rs_next\<close> draws one sample: the value and the next state.
  \<^verbatim>\<open>random_sample(n)\<close> and \<^verbatim>\<open>rand(n)\<close> return \<open>n\<close> consecutive samples of the
  stream and raise \<^verbatim>\<open>ValueError\<close> for a negative \<open>n\<close>.
\<close>

record 's RandomState =
  rs_seed :: "int \<Rightarrow> 's"
  rs_shuffle :: "'s \<Rightarrow> nat list \<Rightarrow> nat list \<times> 's"
  rs_next :: "'s \<Rightarrow> real \<times> 's"

fun draws :: "('s \<Rightarrow> real \<times> 's) \<Rightarrow> nat \<Rightarrow> 's \<Rightarrow> real list \<times> 's" where
  "draws nxt 0 s = ([], s)"
| "draws nxt (Suc n) s =
     (case nxt s of (v, s') \<Rightarrow>
        (case draws nxt n s' of (vs, s'') \<Rightarrow> (v # vs, s'')))"

definition random_sample :: "'s RandomState \<Rightarrow> int \<Rightarrow> 's \<Rightarrow> py_error + (real list \<times> 's)" where
  "random_sample rs n s = (if n < 0 then Inl ValueError else Inr (draws (rs_next rs) (nat n) s))"

text \<open>
  The constructor \<^verbatim>\<open>np.random.RandomState(seed)\<close> with an integer seed: a seed outside
  \<open>0 .. 2\<^sup>3\<^sup>2 - 1\<close> raises \<^verbatim>\<open>ValueError\<close>.
\<close>

definition RandomState_init :: "'s RandomState \<Rightarrow> int \<Rightarrow> py_error + 's" where
  "RandomState_init rs seed =
     (if 0 \<le> seed \<and> seed < 2 ^ 32 then Inr (rs_seed rs seed) else Inl ValueError)"

text \<open>
  An integer argument is a Python \<^verbatim>\<open>int\<close> or a NumPy integer scalar.
  \<^verbatim>\<open>np.asscalar(a)\<close> returns \<^verbatim>\<open>a.item()\<close>: a Python \<^verbatim>\<open>int\<close> has no such method, and
  NumPy 1.23 removed the function, so both raise \<^verbatim>\<open>AttributeError\<close>. \<open>has_asscalar\<close>
  says whether the NumPy in use still provides it.
\<close>

datatype py_integer = PyInt int | NpInt int

definition np_asscalar :: "bool \<Rightarrow> py_integer \<Rightarrow> py_error + int" where
  "np_asscalar has_asscalar a =
     (if \<not> has_asscalar then Inl AttributeError
      else case a of PyInt n \<Rightarrow> Inl AttributeError | NpInt n \<Rightarrow> Inr n)"

section \<open>\<^verbatim>\<open>scilpy/tracking/seed.py\<close>: \<^verbatim>\<open>SeedGenerator.init_generator\<close>\<close>

text \<open>
  The \<^verbatim>\<open>while\<close> loop of \<^verbatim>\<open>init_generator\<close>: 100000 samples are drawn and dropped
  as long as more than 100000 remain to be skipped. It returns what is left to skip
  and the state reached.
\<close>

function skip_batches :: "'s RandomState \<Rightarrow> int \<Rightarrow> 's \<Rightarrow> int \<times> 's" where
  "skip_batches rs random_numbers_to_skip s =
     (if random_numbers_to_skip > 100000
      then skip_batches rs (random_numbers_to_skip - 100000)
             (snd (draws (rs_next rs) 100000 s))
      else (random_numbers_to_skip, s))"
  by pat_completeness auto
termination
  by (relation "measure (\<lambda>(rs, k, s). nat k)") auto

declare skip_batches.simps [simp del]

text \<open>
  \<open>n_seeds\<close> is \<^verbatim>\<open>len(self.seeds)\<close>. The result is the generator state and the
  shuffled indices.
\<close>

definition init_generator ::
  "'s RandomState \<Rightarrow> nat \<Rightarrow> int \<Rightarrow> int \<Rightarrow> py_error + ('s \<times> nat list)" where
  "init_generator rs n_seeds random_initial_value first_seed_of_chunk =
     (case RandomState_init rs random_initial_value of
        Inl e \<Rightarrow> Inl e
      | Inr random_generator \<Rightarrow>
          (let (indices, g1) = rs_shuffle rs random_generator [0..<n_seeds];
               random_numbers_to_skip = first_seed_of_chunk * 3;
               (rest, g2) = skip_batches rs random_numbers_to_skip g1
           in case random_sample rs rest g2 of
                Inl e \<Rightarrow> Inl e
              | Inr (_, g3) \<Rightarrow> Inr (g3, indices)))"

section \<open>\<^verbatim>\<open>scilpy/tracking/trackable_dataset.py\<close>: \<^verbatim>\<open>Seed.init_pos\<close>\<close>

text \<open>
  The same skip-ahead, written with \<^verbatim>\<open>rand\<close>. After the generator is made and the
  indices are shuffled, \<^verbatim>\<open>np.asscalar(first_seed_of_chunk)\<close> turns the offset into a
  Python integer, or raises.
\<close>

function seed_to_go_loop :: "'s RandomState \<Rightarrow> int \<Rightarrow> 's \<Rightarrow> int \<times> 's" where
  "seed_to_go_loop rs seed_to_go s =
     (if seed_to_go > 100000
      then seed_to_go_loop rs (seed_to_go - 100000) (snd (draws (rs_next rs) 100000 s))
      else (seed_to_go, s))"
  by pat_completeness auto
termination
  by (relation "measure (\<lambda>(rs, k, s). nat k)") auto

declare seed_to_go_loop.simps [simp del]

definition init_pos ::
  "'s RandomState \<Rightarrow> bool \<Rightarrow> nat \<Rightarrow> int \<Rightarrow> py_integer \<Rightarrow> py_error + ('s \<times> nat list)" where
  "init_pos rs has_asscalar n_seeds random_initial_value first_seed_of_chunk =
     (case RandomState_init rs random_initial_value of
        Inl e \<Rightarrow> Inl e
      | Inr random_generator \<Rightarrow>
          (let (indices, g1) = rs_shuffle rs random_generator [0..<n_seeds]
           in case np_asscalar has_asscalar first_seed_of_chunk of
                Inl e \<Rightarrow> Inl e
              | Inr k \<Rightarrow>
                  (let seed_to_go = k * 3;
                       (rest, g2) = seed_to_go_loop rs seed_to_go g1
                   in case random_sample rs rest g2 of
                        Inl e \<Rightarrow> Inl e
                      | Inr (_, g3) \<Rightarrow> Inr (g3, indices))))"

text \<open>
  The reference of the skip-ahead claim: the sequential generator, made from a seed the
  constructor accepts and shuffled the same way, after \<open>k\<close> samples were drawn from it
  one by one and dropped.
\<close>

definition sequential_after :: "'s RandomState \<Rightarrow> nat \<Rightarrow> int \<Rightarrow> nat \<Rightarrow> 's \<times> nat list" where
  "sequential_after rs n_seeds random_initial_value k =
     (case rs_shuffle rs (rs_seed rs random_initial_value) [0..<n_seeds] of
        (indices, g1) \<Rightarrow> (((\<lambda>g. snd (rs_next rs g)) ^^ k) g1, indices))"

text \<open>A small linear congruential generator, to run the definitions on.\<close>

definition lcg :: "nat RandomState" where
  "lcg = \<lparr> rs_seed = (\<lambda>seed. nat \<bar>seed\<bar> mod 65537),
           rs_shuffle = (\<lambda>s xs. (rev xs, (75 * s + 74) mod 65537)),
           rs_next = (\<lambda>s. (real s / 65537, (75 * s + 74) mod 65537)) \<rparr>"

section \<open>NumPy: splitting, cumulative sums, slices\<close>

text \<open>\<^verbatim>\<open>np.cumsum\<close> of a list of lengths.\<close>

fun cumsum_from :: "nat \<Rightarrow> nat list \<Rightarrow> nat list" where
  "cumsum_from acc [] = []"
| "cumsum_from acc (x # xs) = (acc + x) # cumsum_from (acc + x) xs"

definition cumsum :: "nat list \<Rightarrow> nat list" where
  "cumsum xs = cumsum_from 0 xs"

text \<open>The slice \<^verbatim>\<open>xs[st:en]\<close> along the first axis, for indices that are not negative.\<close>

definition slice :: "'a list \<Rightarrow> nat \<Rightarrow> nat \<Rightarrow> 'a list" where
  "slice xs st en = drop st (take en xs)"

text \<open>
  Modelled from the spec: \<^verbatim>\<open>np.array_split\<close> is NumPy library code; the repository
  only calls it. The spec's rule for the chunk sizes is NumPy's: with
  \<open>q = M div K\<close> and \<open>r = M mod K\<close>, the first \<open>r\<close> sections have \<open>q + 1\<close> rows and the
  other \<open>K - r\<close> have \<open>q\<close>; section \<open>i\<close> is the slice between the cumulative offsets
  \<open>i\<close> and \<open>i + 1\<close>. The definition follows the library's steps (the section sizes,
  their cumulative sum, the slices); a number of sections that is not positive raises
  \<^verbatim>\<open>ValueError\<close>.
\<close>

definition array_split :: "'a list \<Rightarrow> int \<Rightarrow> py_error + 'a list list" where
  "array_split ary indices_or_sections =
     (if indices_or_sections \<le> 0 then Inl ValueError
      else
        let Ntotal = length ary;
            Nsections = nat indices_or_sections;
            Neach_section = Ntotal div Nsections;
            extras = Ntotal mod Nsections;
            section_sizes = [0] @ replicate extras (Neach_section + 1)
                                @ replicate (Nsections - extras) Neach_section;
            div_points = cumsum section_sizes
        in Inr (map (\<lambda>i. slice ary (div_points ! i) (div_points ! (i + 1))) [0..<Nsections]))"

text \<open>
  \<^verbatim>\<open>chunk_len = np.cumsum([0] + [len(c) for c in chunks])\<close>, as every voxel-wise
  operation of \<^verbatim>\<open>multi_processes.py\<close> computes it.
\<close>

definition chunk_len :: "'a list list \<Rightarrow> nat list" where
  "chunk_len chunks = cumsum ([0] @ map length chunks)"

text \<open>The closed form of the offsets, used in the proofs: \<open>i * q + min i r\<close>.\<close>

definition chunk_offset :: "nat \<Rightarrow> nat \<Rightarrow> nat \<Rightarrow> nat" where
  "chunk_offset M K i = i * (M div K) + min i (M mod K)"

section \<open>Volumes and masks\<close>

text \<open>
  A volume is its spatial shape \<open>(X, Y, Z)\<close> and its voxels in row-major (C) order,
  the order in which NumPy's boolean indexing visits them. A voxel of a 4-D array is its
  row of channel values; array entries are modelled as real numbers.
\<close>

record 'a volume =
  shape :: "nat \<times> nat \<times> nat"
  voxels :: "'a list"

definition n_voxels :: "nat \<times> nat \<times> nat \<Rightarrow> nat" where
  "n_voxels sh = (case sh of (X, Y, Z) \<Rightarrow> X * Y * Z)"

definition volume_ok :: "'a volume \<Rightarrow> bool" where
  "volume_ok v = (length (voxels v) = n_voxels (shape v))"

text \<open>\<^verbatim>\<open>np.zeros(data_shape[0:3] + ...)\<close>: every voxel holds the default entry \<open>z\<close>.\<close>

definition zeros :: "nat \<times> nat \<times> nat \<Rightarrow> 'a \<Rightarrow> 'a volume" where
  "zeros sh z = \<lparr> shape = sh, voxels = replicate (n_voxels sh) z \<rparr>"

text \<open>\<^verbatim>\<open>row.any()\<close>: some entry of the row is not zero.\<close>

definition ndarray_any :: "real list \<Rightarrow> bool" where
  "ndarray_any row = list_ex (\<lambda>x. x \<noteq> 0) row"

text \<open>\<^verbatim>\<open>np.sum(data, axis=3).astype(bool)\<close>: a voxel is true when its channels' sum is not zero.\<close>

definition sum_astype_bool :: "real list volume \<Rightarrow> bool volume" where
  "sum_astype_bool d = \<lparr> shape = shape d, voxels = map (\<lambda>row. sum_list row \<noteq> 0) (voxels d) \<rparr>"

definition count_nonzero :: "bool volume \<Rightarrow> nat" where
  "count_nonzero m = length (filter id (voxels m))"

text \<open>
  \<^verbatim>\<open>a[m]\<close> for a boolean mask: the voxels where the mask is true, in order; a mask of
  another shape raises \<^verbatim>\<open>IndexError\<close>.
\<close>

definition getitem_mask :: "'a volume \<Rightarrow> bool volume \<Rightarrow> py_error + 'a list" where
  "getitem_mask a m =
     (if shape m \<noteq> shape a then Inl IndexError
      else Inr (map fst (filter snd (zip (voxels a) (voxels m)))))"

text \<open>
  \<^verbatim>\<open>a[m] = vs\<close>: the values go, in order, to the voxels where the mask is true. The
  code always passes \<^verbatim>\<open>count_nonzero(m)\<close> values; another number of values raises
  \<^verbatim>\<open>ValueError\<close>.
\<close>

fun put_mask :: "'a list \<Rightarrow> bool list \<Rightarrow> 'a list \<Rightarrow> 'a list" where
  "put_mask (a # as) (m # ms) vs =
     (if m then (case vs of [] \<Rightarrow> a # put_mask as ms []
                          | v # vs' \<Rightarrow> v # put_mask as ms vs')
      else a # put_mask as ms vs)"
| "put_mask as ms vs = as"

definition setitem_mask :: "'a volume \<Rightarrow> bool volume \<Rightarrow> 'a list \<Rightarrow> py_error + 'a volume" where
  "setitem_mask a m vs =
     (if shape m \<noteq> shape a then Inl IndexError
      else if length vs \<noteq> count_nonzero m then Inl ValueError
      else Inr (a\<lparr>voxels := put_mask (voxels a) (voxels m) vs\<rparr>))"

text \<open>
  \<^verbatim>\<open>arr[st:en] = vals\<close> along the first axis: \<open>vals\<close> has as many rows as the slice,
  or one row that is repeated; anything else raises \<^verbatim>\<open>ValueError\<close>.
\<close>

definition setitem_slice :: "'a list \<Rightarrow> nat \<Rightarrow> nat \<Rightarrow> 'a list \<Rightarrow> py_error + 'a list" where
  "setitem_slice arr st en vals =
     (let n = length (slice arr st en) in
      if length vals = n then Inr (take st arr @ vals @ drop (st + n) arr)
      else if length vals = 1 then Inr (take st arr @ replicate n (hd vals) @ drop (st + n) arr)
      else Inl ValueError)"

text \<open>Whether an array of shape \<open>src\<close> can be broadcast to the shape \<open>dst\<close>.\<close>

definition broadcastable :: "nat \<times> nat \<times> nat \<Rightarrow> nat \<times> nat \<times> nat \<Rightarrow> bool" where
  "broadcastable src dst =
     (case (src, dst) of ((a, b, c), (x, y, z)) \<Rightarrow>
        (a = x \<or> a = 1) \<and> (b = y \<or> b = 1) \<and> (c = z \<or> c = 1))"

text \<open>A \<^verbatim>\<open>for\<close> loop over a list whose body may raise.\<close>

fun fold_err :: "('a \<Rightarrow> 'b \<Rightarrow> py_error + 'b) \<Rightarrow> 'a list \<Rightarrow> 'b \<Rightarrow> py_error + 'b" where
  "fold_err f [] s = Inr s"
| "fold_err f (x # xs) s = (case f x s of Inl e \<Rightarrow> Inl e | Inr s' \<Rightarrow> fold_err f xs s')"

section \<open>What a call can change outside itself\<close>

text \<open>
  A mask argument is a reference to an array of the caller: \<open>masks\<close> is the store of
  these arrays, by address, and an in-place update of a mask writes to it. \<open>warnings\<close>
  are the messages passed to \<^verbatim>\<open>logging.warning\<close> so far. The data volume is passed
  by value: the operations only rebind their local name \<^verbatim>\<open>data\<close>, and the workers of
  the pool receive copies.
\<close>

record world =
  masks :: "nat \<Rightarrow> bool volume"
  warnings :: "string list"

definition world0 :: world where
  "world0 = \<lparr> masks = (\<lambda>a. \<lparr> shape = (0, 0, 0), voxels = [] \<rparr>), warnings = [] \<rparr>"

section \<open>\<^verbatim>\<open>scilpy/reconst/multi_processes.py\<close>: \<^verbatim>\<open>fit_from_model\<close>\<close>

text \<open>
  \<^verbatim>\<open>model.fit\<close> is a parameter: it returns a fit or raises the solver's error. A cell
  of the object array is the integer 0 it was created with, a fit, or the
  \<^verbatim>\<open>MSDeconvFit\<close> with NaN coefficients that replaces a failed fit.
\<close>

datatype 'f solver_result = Fitted 'f | SolverError

datatype 'f fit_cell = Zero | Fit 'f | MSDeconvFit_NaN

record 'f MultiVoxelFit =
  fit_array :: "'f fit_cell volume"
  fit_mask :: "bool volume"

definition fit_from_model_parallel ::
  "(real list \<Rightarrow> 'f solver_result) \<Rightarrow> real list list \<Rightarrow> nat \<Rightarrow> nat \<times> 'f fit_cell list" where
  "fit_from_model_parallel model_fit data chunk_id =
     (chunk_id,
      map (\<lambda>row. if ndarray_any row
                 then (case model_fit row of Fitted f \<Rightarrow> Fit f | SolverError \<Rightarrow> MSDeconvFit_NaN)
                 else Zero) data)"

text \<open>
  Lines 56 to 70 of \<^verbatim>\<open>fit_from_model\<close>: the mask, the number of processes and the
  chunks. \<open>user_mask\<close> is the argument \<^verbatim>\<open>mask\<close>: \<open>None\<close>, or the address of the
  caller's array. \<^verbatim>\<open>mask *= mask_any\<close> multiplies in place, so the caller's array is
  overwritten; with unequal shapes the call raises (\<^verbatim>\<open>ValueError\<close> from the
  multiplication when \<^verbatim>\<open>mask_any\<close> cannot be broadcast, else \<^verbatim>\<open>IndexError\<close> from
  \<^verbatim>\<open>data[mask]\<close>). \<open>cpu_count\<close> is \<^verbatim>\<open>multiprocessing.cpu_count()\<close>. The result is
  the world, the mask in use, the number of processes and the chunks.
\<close>

definition fit_from_model_chunks ::
  "nat \<Rightarrow> real list volume \<Rightarrow> nat option \<Rightarrow> int option \<Rightarrow> world \<Rightarrow>
     py_error + (world \<times> bool volume \<times> int \<times> real list list list)" where
  "fit_from_model_chunks cpu_count data user_mask nbr_processes w =
     (let mask_any = sum_astype_bool data in
      case (case user_mask of
              None \<Rightarrow> Inr (w, mask_any)
            | Some a \<Rightarrow>
                if shape (masks w a) = shape mask_any
                then (let m = (masks w a)\<lparr>voxels := map2 (\<and>) (voxels (masks w a)) (voxels mask_any)\<rparr>
                      in Inr (w\<lparr>masks := (masks w)(a := m)\<rparr>, m))
                else if broadcastable (shape mask_any) (shape (masks w a)) then Inl IndexError
                else Inl ValueError) of
        Inl e \<Rightarrow> Inl e
      | Inr (w', mask') \<Rightarrow>
          (let nbr = (case nbr_processes of
                        None \<Rightarrow> int cpu_count
                      | Some k \<Rightarrow> if k \<le> 0 then int cpu_count else k) in
           case getitem_mask data mask' of
             Inl e \<Rightarrow> Inl e
           | Inr rows \<Rightarrow>
               (case array_split rows nbr of
                  Inl e \<Rightarrow> Inl e
                | Inr chunks \<Rightarrow> Inr (w', mask', nbr, chunks))))"

text \<open>
  The whole call. \<^verbatim>\<open>pool.map\<close> returns the workers' results in the order of the
  chunks. In \<open>cl ! i\<close> the index is a chunk number, so it is in range.
\<close>

definition fit_from_model ::
  "(real list \<Rightarrow> 'f solver_result) \<Rightarrow> nat \<Rightarrow> real list volume \<Rightarrow> nat option \<Rightarrow> int option \<Rightarrow>
     world \<Rightarrow> py_error + (world \<times> 'f MultiVoxelFit)" where
  "fit_from_model model_fit cpu_count data user_mask nbr_processes w =
     (case fit_from_model_chunks cpu_count data user_mask nbr_processes w of
        Inl e \<Rightarrow> Inl e
      | Inr (w', mask', nbr, chunks) \<Rightarrow>
          (let cl = chunk_len chunks;
               results = map (\<lambda>(c, i). fit_from_model_parallel model_fit c i)
                             (zip chunks [0..<length chunks]);
               fit_array0 = zeros (shape data) Zero;
               tmp_fit_array = replicate (count_nonzero mask') Zero
           in case fold_err (\<lambda>(i, fit) tmp. setitem_slice tmp (cl ! i) (cl ! (i + 1)) fit)
                     results tmp_fit_array of
                Inl e \<Rightarrow> Inl e
              | Inr tmp \<Rightarrow>
                  (case setitem_mask fit_array0 mask' tmp of
                     Inl e \<Rightarrow> Inl e
                   | Inr fa \<Rightarrow> Inr (w', \<lparr> fit_array = fa, fit_mask = mask' \<rparr>))))"

section \<open>\<^verbatim>\<open>scilpy/reconst/multi_processes.py\<close>: \<^verbatim>\<open>fit_gamma\<close>\<close>

text \<open>
  \<^verbatim>\<open>gamma_data2fit\<close> (module \<^verbatim>\<open>scilpy.reconst.divide_fit\<close>) is a parameter: the four
  fitted values of a voxel, with the other arguments of the call fixed.
\<close>

definition fit_gamma_parallel ::
  "(real list \<Rightarrow> real list) \<Rightarrow> real list list \<Rightarrow> nat \<Rightarrow> nat \<times> real list list" where
  "fit_gamma_parallel gamma_data2fit data chunk_id =
     (chunk_id,
      map (\<lambda>row. if ndarray_any row then gamma_data2fit row else [0, 0, 0, 0]) data)"

text \<open>
  Lines 655 to 665 of \<^verbatim>\<open>fit_gamma\<close>: a mask that is given is used as it is. The result
  is the mask in use, the number of processes and the chunks.
\<close>

definition fit_gamma_chunks ::
  "nat \<Rightarrow> real list volume \<Rightarrow> nat option \<Rightarrow> int option \<Rightarrow> world \<Rightarrow>
     py_error + (bool volume \<times> int \<times> real list list list)" where
  "fit_gamma_chunks cpu_count data user_mask nbr_processes w =
     (let mask' = (case user_mask of None \<Rightarrow> sum_astype_bool data | Some a \<Rightarrow> masks w a);
          nbr = (case nbr_processes of
                   None \<Rightarrow> int cpu_count
                 | Some k \<Rightarrow> if k \<le> 0 then int cpu_count else k) in
      case getitem_mask data mask' of
        Inl e \<Rightarrow> Inl e
      | Inr rows \<Rightarrow>
          (case array_split rows nbr of
             Inl e \<Rightarrow> Inl e
           | Inr chunks \<Rightarrow> Inr (mask', nbr, chunks)))"

definition fit_gamma ::
  "(real list \<Rightarrow> real list) \<Rightarrow> nat \<Rightarrow> real list volume \<Rightarrow> nat option \<Rightarrow> int option \<Rightarrow>
     world \<Rightarrow> py_error + (world \<times> real list volume)" where
  "fit_gamma gamma_data2fit cpu_count data user_mask nbr_processes w =
     (case fit_gamma_chunks cpu_count data user_mask nbr_processes w of
        Inl e \<Rightarrow> Inl e
      | Inr (mask', nbr, chunks) \<Rightarrow>
          (let cl = chunk_len chunks;
               results = map (\<lambda>(c, i). fit_gamma_parallel gamma_data2fit c i)
                             (zip chunks [0..<length chunks]);
               fit_array0 = zeros (shape data) [0, 0, 0, 0];
               tmp_fit_array = replicate (count_nonzero mask') [0, 0, 0, 0]
           in case fold_err (\<lambda>(i, fit) tmp. setitem_slice tmp (cl ! i) (cl ! (i + 1)) fit)
                     results tmp_fit_array of
                Inl e \<Rightarrow> Inl e
              | Inr tmp \<Rightarrow>
                  (case setitem_mask fit_array0 mask' tmp of
                     Inl e \<Rightarrow> Inl e
                   | Inr fa \<Rightarrow> Inr (w, fa))))"

section \<open>\<^verbatim>\<open>scilpy/tracking/seed.py\<close>: \<^verbatim>\<open>SeedGenerator.__init__\<close>\<close>

text \<open>
  The seeds are the centres of the voxels whose value is positive, in row-major order;
  \<^verbatim>\<open>np.squeeze\<close> leaves an image with no axis of length one as it is. The constructor
  logs a warning when there is no seed.
\<close>

record SeedGenerator =
  pixdim :: "real \<times> real \<times> real"
  seeds :: "(real \<times> real \<times> real) list"

definition unravel_index :: "nat \<times> nat \<times> nat \<Rightarrow> nat \<Rightarrow> nat \<times> nat \<times> nat" where
  "unravel_index sh i = (case sh of (X, Y, Z) \<Rightarrow> (i div (Y * Z), (i div Z) mod Y, i mod Z))"

definition SeedGenerator_init ::
  "real \<times> real \<times> real \<Rightarrow> real volume \<Rightarrow> world \<Rightarrow> SeedGenerator \<times> world" where
  "SeedGenerator_init zooms data w =
     (let positive = filter (\<lambda>i. voxels data ! i > 0) [0..<length (voxels data)];
          centres = map (\<lambda>i. case unravel_index (shape data) i of
                               (x, y, z) \<Rightarrow> (real x + 0.5, real y + 0.5, real z + 0.5)) positive
      in (\<lparr> pixdim = zooms, seeds = centres \<rparr>,
          if length centres = 0
          then w\<lparr>warnings := warnings w @ [''There are positive voxels in the seeding mask!'']\<rparr>
          else w))"

section \<open>Floating-point values that need not be finite\<close>

text \<open>
  Array entries are real numbers: rounding and overflow are not modelled. The running
  maxima of \<^verbatim>\<open>maps_from_sh\<close> start at \<^verbatim>\<open>-np.inf\<close>, and its final divisions can
  have a divisor that is zero or infinite, so these values carry the infinities and NaN
  as well. Signed zeros are not told apart.
\<close>

datatype fl = Fin real | PosInf | NegInf | NaN

text \<open>\<open>fl_gt b a\<close> is the comparison \<^verbatim>\<open>b > a\<close>: false when either side is NaN.\<close>

fun fl_gt :: "fl \<Rightarrow> fl \<Rightarrow> bool" where
  "fl_gt NaN a = False"
| "fl_gt b NaN = False"
| "fl_gt (Fin x) (Fin y) = (x > y)"
| "fl_gt PosInf PosInf = False"
| "fl_gt PosInf a = True"
| "fl_gt b PosInf = False"
| "fl_gt NegInf a = False"
| "fl_gt (Fin x) NegInf = True"

text \<open>Python's built-in \<^verbatim>\<open>max(a, b)\<close>: \<open>a\<close>, unless \<^verbatim>\<open>b > a\<close>.\<close>

definition py_max :: "fl \<Rightarrow> fl \<Rightarrow> fl" where
  "py_max a b = (if fl_gt b a then b else a)"

fun fl_neg :: "fl \<Rightarrow> fl" where
  "fl_neg (Fin x) = Fin (- x)"
| "fl_neg PosInf = NegInf"
| "fl_neg NegInf = PosInf"
| "fl_neg NaN = NaN"

fun fl_mul :: "fl \<Rightarrow> fl \<Rightarrow> fl" where
  "fl_mul NaN b = NaN"
| "fl_mul a NaN = NaN"
| "fl_mul (Fin x) (Fin y) = Fin (x * y)"
| "fl_mul (Fin x) b = (if x = 0 then NaN else if x > 0 then b else fl_neg b)"
| "fl_mul a (Fin y) = (if y = 0 then NaN else if y > 0 then a else fl_neg a)"
| "fl_mul PosInf b = b"
| "fl_mul NegInf b = fl_neg b"

fun fl_div :: "fl \<Rightarrow> fl \<Rightarrow> fl" where
  "fl_div NaN b = NaN"
| "fl_div a NaN = NaN"
| "fl_div (Fin x) (Fin y) =
     (if y \<noteq> 0 then Fin (x / y)
      else if x = 0 then NaN else if x > 0 then PosInf else NegInf)"
| "fl_div (Fin x) b = Fin 0"
| "fl_div a (Fin y) = (if y \<ge> 0 then a else fl_neg a)"
| "fl_div a b = NaN"

section \<open>\<^verbatim>\<open>scilpy/reconst/multi_processes.py\<close>: \<^verbatim>\<open>maps_from_sh\<close>\<close>

text \<open>
  The arrays are taken to have the shapes the code expects: the matrix \<open>B\<close> of
  \<^verbatim>\<open>sh_to_sf_matrix\<close> has one row per coefficient and one column per vertex of the
  sphere, a vertex has three coordinates, there is at least one vertex, and the peak
  arrays have \<open>npeaks\<close> entries per voxel (\<^verbatim>\<open>peak_values.shape[3]\<close>).
\<close>

text \<open>\<^verbatim>\<open>np.dot(shm_coeff[idx], B)\<close>: entry \<open>j\<close> is the sum of \<open>sh[i] * B[i][j]\<close>.\<close>

definition dot_sh_B :: "real list \<Rightarrow> real list list \<Rightarrow> nat \<Rightarrow> real list" where
  "dot_sh_B sh B n_vertices =
     map (\<lambda>j. sum_list (map2 (\<lambda>s row. s * row ! j) sh B)) [0..<n_vertices]"

text \<open>\<^verbatim>\<open>np.dot(np.abs(sphere.vertices).T, odf)\<close>: entry \<open>c\<close> is the sum of \<open>|v[j][c]| * odf[j]\<close>.\<close>

definition dot_abs_vertices :: "real list list \<Rightarrow> real list \<Rightarrow> real list" where
  "dot_abs_vertices vertices odf =
     map (\<lambda>c. sum_list (map2 (\<lambda>v x. \<bar>v ! c\<bar> * x) vertices odf)) [0, 1, 2]"

text \<open>
  The numeric library functions the code calls are parameters of the model:
  \<^verbatim>\<open>np.sqrt\<close>, and the generalized fractional anisotropy
  \<^verbatim>\<open>dipy.reconst.odf.gfa\<close>.
\<close>

record numlib =
  np_sqrt :: "real \<Rightarrow> real"
  gfa :: "real list \<Rightarrow> real"

text \<open>\<^verbatim>\<open>np.linalg.norm\<close> of a vector, and \<^verbatim>\<open>max()\<close> and \<^verbatim>\<open>min()\<close> of a non-empty one.\<close>

definition linalg_norm :: "numlib \<Rightarrow> real list \<Rightarrow> real" where
  "linalg_norm lib v = np_sqrt lib (sum_list (map (\<lambda>x. x * x) v))"

definition amax :: "real list \<Rightarrow> real" where
  "amax xs = fold max (tl xs) (hd xs)"

definition amin :: "real list \<Rightarrow> real" where
  "amin xs = fold min (tl xs) (hd xs)"

text \<open>
  For running the model: the formula \<^verbatim>\<open>gfa\<close> implements, the square root of
  \<open>n * sum (x - mean)\<^sup>2 / ((n - 1) * sum x\<^sup>2)\<close>, and 1 where the denominator is zero;
  and the library over the real numbers.
\<close>

definition gfa_formula :: "(real \<Rightarrow> real) \<Rightarrow> real list \<Rightarrow> real" where
  "gfa_formula sqrt_fn samples =
     (let n = real (length samples);
          mean = sum_list samples / n;
          numer = n * sum_list (map (\<lambda>x. (x - mean) * (x - mean)) samples);
          denom = (n - 1) * sum_list (map (\<lambda>x. x * x) samples)
      in if denom \<noteq> 0 then sqrt_fn (numer / denom) else 1)"

definition real_lib :: numlib where
  "real_lib = \<lparr> np_sqrt = sqrt, gfa = gfa_formula sqrt \<rparr>"

text \<open>
  What a worker returns. \<^verbatim>\<open>qa_map\<close> is created as an array with one row per voxel;
  the statement \<^verbatim>\<open>qa_map = peak_values[idx] - odf.min()\<close> rebinds the name to a single
  row.
\<close>

datatype qa_value = QaRows "real list list" | QaVec "real list"

record maps_chunk =
  nufo_map :: "real list"
  afd_max :: "real list"
  afd_sum :: "real list"
  rgb_map :: "fl list list"
  gfa_map :: "real list"
  qa_map :: qa_value
  max_odf :: real
  global_max :: fl

text \<open>The body of the worker's loop, for the voxel \<open>idx\<close> of the chunk.\<close>

definition maps_voxel ::
  "numlib \<Rightarrow> real list list \<Rightarrow> real list list \<Rightarrow> real \<Rightarrow>
   real list list \<Rightarrow> real list list \<Rightarrow> int list list \<Rightarrow> nat \<Rightarrow> maps_chunk \<Rightarrow> maps_chunk" where
  "maps_voxel lib B vertices gfa_thr shm_coeff peak_values peak_indices idx st =
     (if ndarray_any (shm_coeff ! idx) then
        (let odf = map (max 0) (dot_sh_B (shm_coeff ! idx) B (length vertices));
             sum_odf = sum_list odf;
             st1 = st\<lparr>max_odf := max (max_odf st) sum_odf\<rparr>;
             st2 = (if sum_odf > 0 then
                      (let rgb = dot_abs_vertices vertices odf;
                           nrm = linalg_norm lib rgb
                       in st1\<lparr>rgb_map := (rgb_map st1)
                               [idx := map (\<lambda>x. fl_mul (fl_div (Fin x) (Fin nrm)) (Fin sum_odf)) rgb]\<rparr>)
                    else st1);
             st3 = st2\<lparr>gfa_map := (gfa_map st2)[idx := gfa lib odf]\<rparr>;
             n_found = length (filter (\<lambda>i. i > - 1) (peak_indices ! idx))
         in if gfa_map st3 ! idx < gfa_thr then
              st3\<lparr>global_max := py_max (global_max st3) (Fin (amax odf))\<rparr>
            else if n_found \<noteq> 0 then
              st3\<lparr>nufo_map := (nufo_map st3)[idx := real n_found],
                  afd_max := (afd_max st3)[idx := amax (peak_values ! idx)],
                  afd_sum := (afd_sum st3)
                     [idx := np_sqrt lib (sum_list (map2 (*) (shm_coeff ! idx) (shm_coeff ! idx)))],
                  qa_map := QaVec (map (\<lambda>p. p - amin odf) (peak_values ! idx)),
                  global_max := py_max (global_max st3) (Fin (hd (peak_values ! idx)))\<rparr>
            else st3)
      else st)"

definition maps_from_sh_parallel ::
  "numlib \<Rightarrow> real list list \<Rightarrow> real list list \<Rightarrow> int list list \<Rightarrow> nat \<Rightarrow>
   real list list \<Rightarrow> real list list \<Rightarrow> real \<Rightarrow> nat \<Rightarrow> nat \<times> maps_chunk" where
  "maps_from_sh_parallel lib shm_coeff peak_values peak_indices npeaks B vertices gfa_thr chunk_id =
     (let data_shape = length shm_coeff;
          init = \<lparr> nufo_map = replicate data_shape 0,
                   afd_max = replicate data_shape 0,
                   afd_sum = replicate data_shape 0,
                   rgb_map = replicate data_shape [Fin 0, Fin 0, Fin 0],
                   gfa_map = replicate data_shape 0,
                   qa_map = QaRows (replicate data_shape (replicate npeaks 0)),
                   max_odf = 0,
                   global_max = NegInf \<rparr>
      in (chunk_id,
          fold (maps_voxel lib B vertices gfa_thr shm_coeff peak_values peak_indices)
               [0..<data_shape] init))"

text \<open>
  Lines 382 and 383: the two running maxima, updated with the maxima of one chunk. The
  first line reads \<^verbatim>\<open>all_time_global_max\<close>, before the second updates it.
\<close>

definition combine_maxima :: "fl \<times> fl \<Rightarrow> real \<times> fl \<Rightarrow> fl \<times> fl" where
  "combine_maxima acc r =
     (case (acc, r) of ((atmo, atgm), (mo, gm)) \<Rightarrow> (py_max atgm (Fin mo), py_max atgm gm))"

record maps_tmp =
  all_time_max_odf :: fl
  all_time_global_max :: fl
  tmp_nufo_map_array :: "real list"
  tmp_afd_max_array :: "real list"
  tmp_afd_sum_array :: "real list"
  tmp_rgb_map_array :: "fl list list"
  tmp_gfa_map_array :: "real list"
  tmp_qa_map_array :: "real list list"

definition bind_err :: "py_error + 'a \<Rightarrow> ('a \<Rightarrow> py_error + 'b) \<Rightarrow> py_error + 'b" where
  "bind_err m f = (case m of Inl e \<Rightarrow> Inl e | Inr x \<Rightarrow> f x)"

text \<open>
  \<^verbatim>\<open>tmp_qa_map_array[st:en, :] = qa_map\<close>: rows are copied; a single row of \<open>npeaks\<close>
  entries (or of one entry) is broadcast to every row of the slice.
\<close>

definition setitem_slice_qa ::
  "real list list \<Rightarrow> nat \<Rightarrow> nat \<Rightarrow> nat \<Rightarrow> qa_value \<Rightarrow> py_error + real list list" where
  "setitem_slice_qa arr st en npeaks q =
     (case q of
        QaRows rows \<Rightarrow> setitem_slice arr st en rows
      | QaVec v \<Rightarrow>
          (let n = length (slice arr st en) in
           if length v = npeaks then Inr (take st arr @ replicate n v @ drop (st + n) arr)
           else if length v = 1
           then Inr (take st arr @ replicate n (replicate npeaks (hd v)) @ drop (st + n) arr)
           else Inl ValueError))"

text \<open>The body of the loop over the results, lines 380 to 390.\<close>

definition maps_reassemble_step ::
  "nat list \<Rightarrow> nat \<Rightarrow> nat \<times> maps_chunk \<Rightarrow> maps_tmp \<Rightarrow> py_error + maps_tmp" where
  "maps_reassemble_step cl npeaks res st =
     (case res of (i, r) \<Rightarrow>
        (case combine_maxima (all_time_max_odf st, all_time_global_max st)
                (max_odf r, global_max r) of
           (atmo, atgm) \<Rightarrow>
             bind_err (setitem_slice (tmp_nufo_map_array st) (cl ! i) (cl ! (i + 1)) (nufo_map r))
               (\<lambda>nufo.
             bind_err (setitem_slice (tmp_afd_max_array st) (cl ! i) (cl ! (i + 1)) (afd_max r))
               (\<lambda>amx.
             bind_err (setitem_slice (tmp_afd_sum_array st) (cl ! i) (cl ! (i + 1)) (afd_sum r))
               (\<lambda>asm.
             bind_err (setitem_slice (tmp_rgb_map_array st) (cl ! i) (cl ! (i + 1)) (rgb_map r))
               (\<lambda>rgb.
             bind_err (setitem_slice (tmp_gfa_map_array st) (cl ! i) (cl ! (i + 1)) (gfa_map r))
               (\<lambda>gf.
             bind_err (setitem_slice_qa (tmp_qa_map_array st) (cl ! i) (cl ! (i + 1)) npeaks (qa_map r))
               (\<lambda>qa.
             Inr \<lparr> all_time_max_odf = atmo, all_time_global_max = atgm,
                   tmp_nufo_map_array = nufo, tmp_afd_max_array = amx,
                   tmp_afd_sum_array = asm, tmp_rgb_map_array = rgb,
                   tmp_gfa_map_array = gf, tmp_qa_map_array = qa \<rparr>))))))))"

record maps_result =
  nufo_map_array :: "real volume"
  afd_max_array :: "real volume"
  afd_sum_array :: "real volume"
  rgb_map_array :: "fl list volume"
  gfa_map_array :: "real volume"
  qa_map_array :: "fl list volume"

text \<open>
  The whole call. \<open>B\<close> is the matrix of \<^verbatim>\<open>sh_to_sf_matrix\<close> and \<open>vertices\<close> are
  \<^verbatim>\<open>sphere.vertices\<close>. A mask that is given is used as it is; a number of processes
  is replaced by the hardware concurrency when it is \<^verbatim>\<open>None\<close> or negative. The four
  input arrays are indexed by the mask and split the same way; the worker ignores its
  chunk of \<^verbatim>\<open>peak_dirs\<close>.
\<close>

definition maps_from_sh ::
  "numlib \<Rightarrow> real list list \<Rightarrow> nat \<Rightarrow>
   real list volume \<Rightarrow> real list list volume \<Rightarrow> real list volume \<Rightarrow> int list volume \<Rightarrow> nat \<Rightarrow>
   real list list \<Rightarrow> nat option \<Rightarrow> real \<Rightarrow> int option \<Rightarrow> world \<Rightarrow>
   py_error + (world \<times> maps_result)" where
  "maps_from_sh lib B cpu_count shm_coeff peak_dirs peak_values peak_indices npeaks
       vertices user_mask gfa_thr nbr_processes w =
     (let mask' = (case user_mask of None \<Rightarrow> sum_astype_bool shm_coeff | Some a \<Rightarrow> masks w a);
          nbr = (case nbr_processes of
                   None \<Rightarrow> int cpu_count
                 | Some k \<Rightarrow> if k < 0 then int cpu_count else k);
          M = count_nonzero mask'
      in
      bind_err (getitem_mask shm_coeff mask') (\<lambda>sh_rows.
      bind_err (getitem_mask peak_dirs mask') (\<lambda>pd_rows.
      bind_err (getitem_mask peak_values mask') (\<lambda>pv_rows.
      bind_err (getitem_mask peak_indices mask') (\<lambda>pi_rows.
      bind_err (array_split sh_rows nbr) (\<lambda>shm_coeff_chunks.
      bind_err (array_split pd_rows nbr) (\<lambda>peak_dirs_chunks.
      bind_err (array_split pv_rows nbr) (\<lambda>peak_values_chunks.
      bind_err (array_split pi_rows nbr) (\<lambda>peak_indices_chunks.
        (let cl = chunk_len shm_coeff_chunks;
             results = map (\<lambda>(c, pv, pidx, i).
                              maps_from_sh_parallel lib c pv pidx npeaks B vertices gfa_thr i)
                           (zip shm_coeff_chunks (zip peak_values_chunks
                              (zip peak_indices_chunks [0..<length shm_coeff_chunks])));
             tmp0 = \<lparr> all_time_max_odf = NegInf, all_time_global_max = NegInf,
                      tmp_nufo_map_array = replicate M 0,
                      tmp_afd_max_array = replicate M 0,
                      tmp_afd_sum_array = replicate M 0,
                      tmp_rgb_map_array = replicate M [Fin 0, Fin 0, Fin 0],
                      tmp_gfa_map_array = replicate M 0,
                      tmp_qa_map_array = replicate M (replicate npeaks 0) \<rparr>
         in
         bind_err (fold_err (maps_reassemble_step cl npeaks) results tmp0) (\<lambda>tmp.
         bind_err (setitem_mask (zeros (shape shm_coeff) 0) mask' (tmp_nufo_map_array tmp)) (\<lambda>nufo.
         bind_err (setitem_mask (zeros (shape shm_coeff) 0) mask' (tmp_afd_max_array tmp)) (\<lambda>amx.
         bind_err (setitem_mask (zeros (shape shm_coeff) 0) mask' (tmp_afd_sum_array tmp)) (\<lambda>asm.
         bind_err (setitem_mask (zeros (shape shm_coeff) [Fin 0, Fin 0, Fin 0]) mask'
                     (tmp_rgb_map_array tmp)) (\<lambda>rgb.
         bind_err (setitem_mask (zeros (shape shm_coeff) 0) mask' (tmp_gfa_map_array tmp)) (\<lambda>gf.
         bind_err (setitem_mask (zeros (shape shm_coeff) (replicate npeaks 0)) mask'
                     (tmp_qa_map_array tmp)) (\<lambda>qa.
           (let rgb' = rgb\<lparr>voxels := map (map (\<lambda>v. fl_mul (fl_div v (all_time_max_odf tmp)) (Fin 255)))
                                           (voxels rgb)\<rparr>;
                qa' = \<lparr> shape = shape qa,
                        voxels = map (map (\<lambda>x. fl_div (Fin x) (all_time_global_max tmp)))
                                     (voxels qa) \<rparr>;
                afd_unique = sort (remdups (voxels amx))
            in Inr (if afd_unique = [0, 1] \<or> afd_unique = [1]
                    then w\<lparr>warnings := warnings w
                            @ [''All AFD_max values are 1. The peaks seem normalized.'']\<rparr>
                    else w,
                    \<lparr> nufo_map_array = nufo, afd_max_array = amx, afd_sum_array = asm,
                      rgb_map_array = rgb', gfa_map_array = gf, qa_map_array = qa' \<rparr>)))))))))))))))))))"

chapter \<open>Theorems\<close>

section \<open>Voxel access\<close>

lemma ndarray_getitem_in_range:
  "0 \<le> i \<Longrightarrow> i < int (length xs) \<Longrightarrow> ndarray_getitem xs i = Inr (xs ! nat i)"
  by (simp add: ndarray_getitem_def)

lemma getVoxelValue_coords_range:
  assumes "ds_dim d = (dx, dy, dz)" "0 < dx" "0 < dy" "0 < dz"
    and "getVoxelValue_coords d x y z = (cx, cy, cz)"
  shows "0 \<le> cx \<and> cx < dx \<and> 0 \<le> cy \<and> cy < dy \<and> 0 \<le> cz \<and> cz < dz"
  using assms
  by (auto simp: getVoxelValue_coords_def isVoxelInBound_def split: if_splits)

text \<open>
  Claim C10. On a dataset whose \<open>dim\<close> is the shape of its array, with no empty axis,
  \<^verbatim>\<open>getVoxelValue\<close> raises nothing for any integer triple: it returns the entry at
  the coordinates clamped componentwise to \<open>max 0 (min (dim - 1) c)\<close>, which lie inside
  the array, and for a triple in bounds these are the triple itself.
\<close>

theorem getVoxelValue_clamps:
  assumes ok: "Dataset_shape_ok d"
    and dims: "ds_dim d = (dx, dy, dz)" "0 < dx" "0 < dy" "0 < dz"
  shows "getVoxelValue d x y z =
           Inr (ds_data d ! nat (max 0 (min (dx - 1) x))
                       ! nat (max 0 (min (dy - 1) y))
                       ! nat (max 0 (min (dz - 1) z)))
         \<and> 0 \<le> max 0 (min (dx - 1) x) \<and> max 0 (min (dx - 1) x) < dx
         \<and> 0 \<le> max 0 (min (dy - 1) y) \<and> max 0 (min (dy - 1) y) < dy
         \<and> 0 \<le> max 0 (min (dz - 1) z) \<and> max 0 (min (dz - 1) z) < dz
         \<and> (isVoxelInBound d x y z \<longrightarrow>
              getVoxelValue d x y z = Inr (ds_data d ! nat x ! nat y ! nat z))"
proof -
  define cx where "cx = max 0 (min (dx - 1) x)"
  define cy where "cy = max 0 (min (dy - 1) y)"
  define cz where "cz = max 0 (min (dz - 1) z)"
  have rx: "0 \<le> cx" "cx < dx" and ry: "0 \<le> cy" "cy < dy" and rz: "0 \<le> cz" "cz < dz"
    using dims by (auto simp: cx_def cy_def cz_def)
  have coords: "getVoxelValue_coords d x y z = (cx, cy, cz)"
    using dims by (auto simp: getVoxelValue_coords_def isVoxelInBound_def cx_def cy_def cz_def)
  have len0: "int (length (ds_data d)) = dx"
    using ok dims by (simp add: Dataset_shape_ok_def)
  have planes: "list_all (\<lambda>plane. int (length plane) = dy \<and>
                   list_all (\<lambda>row. int (length row) = dz) plane) (ds_data d)"
    using ok dims by (simp add: Dataset_shape_ok_def)
  have ix: "nat cx < length (ds_data d)"
    using rx len0 by linarith
  then have plane: "int (length (ds_data d ! nat cx)) = dy
      \<and> list_all (\<lambda>row. int (length row) = dz) (ds_data d ! nat cx)"
    using planes by (simp add: list_all_length)
  then have iy: "nat cy < length (ds_data d ! nat cx)"
    using ry by linarith
  then have row: "int (length (ds_data d ! nat cx ! nat cy)) = dz"
    using plane by (simp add: list_all_length)
  have g1: "ndarray_getitem (ds_data d) cx = Inr (ds_data d ! nat cx)"
    using rx len0 by (simp add: ndarray_getitem_in_range)
  have g2: "ndarray_getitem (ds_data d ! nat cx) cy = Inr (ds_data d ! nat cx ! nat cy)"
    using ry plane by (simp add: ndarray_getitem_in_range)
  have g3: "ndarray_getitem (ds_data d ! nat cx ! nat cy) cz = Inr (ds_data d ! nat cx ! nat cy ! nat cz)"
    using rz row by (simp add: ndarray_getitem_in_range)
  have val: "getVoxelValue d x y z = Inr (ds_data d ! nat cx ! nat cy ! nat cz)"
    by (simp add: getVoxelValue_def coords g1 g2 g3)
  have inb: "isVoxelInBound d x y z \<Longrightarrow> cx = x \<and> cy = y \<and> cz = z"
    using dims by (auto simp: isVoxelInBound_def cx_def cy_def cz_def)
  show ?thesis
    using val rx ry rz inb unfolding cx_def cy_def cz_def by auto
qed

theorem getVoxelValue_clamps_witness:
  "getVoxelValue \<lparr> ds_data = [[[10, 11]], [[20, 21::int]]], ds_dim = (2, 1, 2) \<rparr> 5 (- 3) 1 = Inr 21
   \<and> getVoxelValue \<lparr> ds_data = [[[10, 11]], [[20, 21::int]]], ds_dim = (2, 1, 2) \<rparr> 0 0 1 = Inr 11"
proof -
  let ?d = "\<lparr> ds_data = [[[10, 11]], [[20, 21::int]]], ds_dim = (2, 1, 2) \<rparr>"
  have ok: "Dataset_shape_ok ?d"
    by (simp add: Dataset_shape_ok_def)
  have dims: "ds_dim ?d = (2, 1, 2)"
    by simp
  have inb: "isVoxelInBound ?d 0 0 1"
    by (simp add: isVoxelInBound_def)
  show ?thesis
    using getVoxelValue_clamps [OF ok dims, of 5 "- 3" 1]
      getVoxelValue_clamps [OF ok dims, of 0 0 1] inb
    by simp
qed

section \<open>Skip-ahead of the random generator\<close>

lemma draws_state: "snd (draws nxt n s) = ((\<lambda>g. snd (nxt g)) ^^ n) s"
proof (induction n arbitrary: s)
  case 0
  show ?case by simp
next
  case (Suc n)
  have "snd (draws nxt (Suc n) s) = snd (draws nxt n (snd (nxt s)))"
    by (simp split: prod.splits)
  also have "\<dots> = ((\<lambda>g. snd (nxt g)) ^^ n) (snd (nxt s))"
    by (rule Suc.IH)
  also have "\<dots> = ((\<lambda>g. snd (nxt g)) ^^ Suc n) s"
    by (simp add: funpow_Suc_right del: funpow.simps)
  finally show ?case .
qed

lemma skip_batches_state:
  "0 \<le> k \<Longrightarrow> skip_batches rs k s = (r, s') \<Longrightarrow>
     0 \<le> r \<and> ((\<lambda>g. snd (rs_next rs g)) ^^ nat r) s' = ((\<lambda>g. snd (rs_next rs g)) ^^ nat k) s"
proof (induction rs k s rule: skip_batches.induct)
  case (1 rs k s)
  show ?case
  proof (cases "k > 100000")
    case True
    let ?f = "\<lambda>g. snd (rs_next rs g)"
    have "skip_batches rs k s = skip_batches rs (k - 100000) ((?f ^^ 100000) s)"
      using True by (subst skip_batches.simps) (simp add: draws_state)
    with "1.prems" have rec: "skip_batches rs (k - 100000) ((?f ^^ 100000) s) = (r, s')"
      by simp
    have ih: "0 \<le> r \<and> (?f ^^ nat r) s' = (?f ^^ nat (k - 100000)) ((?f ^^ 100000) s)"
      using "1.IH" [OF True] True rec by (simp add: draws_state)
    have "nat k = nat (k - 100000) + 100000"
      using True by simp
    then have "(?f ^^ nat k) s = (?f ^^ nat (k - 100000)) ((?f ^^ 100000) s)"
      by (simp add: funpow_add)
    with ih show ?thesis by simp
  next
    case False
    then have "skip_batches rs k s = (k, s)"
      by (subst skip_batches.simps) simp
    with "1.prems" show ?thesis by simp
  qed
qed

lemma seed_to_go_loop_eq: "seed_to_go_loop rs k s = skip_batches rs k s"
proof (induction rs k s rule: skip_batches.induct)
  case (1 rs k s)
  show ?case
  proof (cases "k > 100000")
    case True
    then show ?thesis
      using "1.IH" by (subst seed_to_go_loop.simps, subst skip_batches.simps) simp
  next
    case False
    then show ?thesis
      by (subst seed_to_go_loop.simps, subst skip_batches.simps) simp
  qed
qed

lemma init_pos_eq:
  "init_pos rs True n seed (NpInt k) = init_generator rs n seed k"
  by (simp add: init_pos_def init_generator_def np_asscalar_def seed_to_go_loop_eq
      split: sum.splits)

lemma init_generator_sequential:
  assumes "0 \<le> seed" "seed < 2 ^ 32" "0 \<le> first_seed_of_chunk"
  shows "init_generator rs n seed first_seed_of_chunk =
           Inr (sequential_after rs n seed (nat (first_seed_of_chunk * 3)))"
proof -
  let ?f = "\<lambda>g. snd (rs_next rs g)"
  have mk: "RandomState_init rs seed = Inr (rs_seed rs seed)"
    using assms by (simp add: RandomState_init_def)
  obtain indices g1 where sh: "rs_shuffle rs (rs_seed rs seed) [0..<n] = (indices, g1)"
    by (cases "rs_shuffle rs (rs_seed rs seed) [0..<n]")
  obtain r g2 where sk: "skip_batches rs (first_seed_of_chunk * 3) g1 = (r, g2)"
    by (cases "skip_batches rs (first_seed_of_chunk * 3) g1")
  have k0: "0 \<le> first_seed_of_chunk * 3"
    using assms by simp
  from skip_batches_state [OF k0 sk]
  have r0: "0 \<le> r" and st: "(?f ^^ nat r) g2 = (?f ^^ nat (first_seed_of_chunk * 3)) g1"
    by simp_all
  have "random_sample rs r g2 = Inr (draws (rs_next rs) (nat r) g2)"
    using r0 by (simp add: random_sample_def)
  then have "init_generator rs n seed first_seed_of_chunk
      = Inr (snd (draws (rs_next rs) (nat r) g2), indices)"
    by (simp add: init_generator_def mk sh sk split: prod.splits)
  then show ?thesis
    by (simp add: sequential_after_def sh draws_state st)
qed

text \<open>
  Claim C3 as stated fails for some seeds and offsets: the seed \<open>-1\<close> is refused by the
  generator's constructor, so no generator is returned; and \<^verbatim>\<open>init_pos\<close> raises for
  an offset that is a Python integer, and for every offset once NumPy has no
  \<^verbatim>\<open>asscalar\<close>.
\<close>

theorem skip_ahead_not_for_every_input:
  "init_generator lcg 4 (- 1) 5 = Inl ValueError
   \<and> init_pos lcg True 4 (- 1) (NpInt 5) = Inl ValueError
   \<and> init_pos lcg True 4 42 (PyInt 5) = Inl AttributeError
   \<and> init_pos lcg False 4 42 (NpInt 5) = Inl AttributeError"
  by (simp add: init_generator_def init_pos_def RandomState_init_def np_asscalar_def lcg_def)

text \<open>
  Claim C3, amended. For every generator, every seed in \<open>0 .. 2\<^sup>3\<^sup>2 - 1\<close> and every
  chunk offset \<open>o \<ge> 0\<close>, \<^verbatim>\<open>init_generator\<close> returns without an exception, and the state
  it returns is the one the sequential generator (same seed, same shuffle) is in after
  \<open>3 * o\<close> samples were drawn from it one at a time and dropped, however many batches
  of 100000 the skip takes; the shuffled indices are the same too. \<^verbatim>\<open>init_pos\<close> does
  the same when the offset is a NumPy integer and NumPy provides \<^verbatim>\<open>asscalar\<close>. Equal
  states give equal streams of later draws. The source takes three draws per seed.
\<close>

theorem skip_ahead_equals_sequential:
  assumes "0 \<le> seed" "seed < 2 ^ 32" "0 \<le> first_seed_of_chunk"
  shows "init_generator rs n seed first_seed_of_chunk =
           Inr (sequential_after rs n seed (nat (first_seed_of_chunk * 3)))
         \<and> init_pos rs True n seed (NpInt first_seed_of_chunk) =
           Inr (sequential_after rs n seed (nat (first_seed_of_chunk * 3)))"
  using init_generator_sequential [OF assms] by (simp add: init_pos_eq)

theorem skip_ahead_equals_sequential_witness:
  "init_generator lcg 4 42 83334 = Inr (sequential_after lcg 4 42 250002)
   \<and> init_pos lcg True 4 42 (NpInt 83334) = Inr (sequential_after lcg 4 42 250002)"
  using skip_ahead_equals_sequential [where seed = 42 and first_seed_of_chunk = 83334
      and rs = lcg and n = 4]
  by simp

section \<open>Chunk sizes and offsets\<close>

lemma length_cumsum_from: "length (cumsum_from a xs) = length xs"
  by (induction xs arbitrary: a) auto

lemma nth_cumsum_from:
  "i < length xs \<Longrightarrow> cumsum_from a xs ! i = a + sum_list (take (Suc i) xs)"
proof (induction xs arbitrary: a i)
  case Nil
  then show ?case by simp
next
  case (Cons x xs)
  show ?case
  proof (cases i)
    case 0
    then show ?thesis by simp
  next
    case (Suc j)
    with Cons.prems have "j < length xs" by simp
    from Cons.IH [OF this, of "a + x"] Suc show ?thesis by simp
  qed
qed

lemma sum_take_sizes:
  assumes "i \<le> n" "r \<le> n"
  shows "sum_list (take i (replicate r (q + 1) @ replicate (n - r) q)) = i * q + min i r"
proof (cases "i \<le> r")
  case True
  then show ?thesis by (simp add: sum_list_replicate min_def)
next
  case False
  then have "take i (replicate r (q + 1) @ replicate (n - r) q)
      = replicate r (q + 1) @ replicate (i - r) q"
    using assms by (simp add: min_def)
  then show ?thesis
    using False by (simp add: sum_list_replicate min_def algebra_simps)
qed

lemma div_points_nth:
  assumes "0 < K" "i \<le> K"
  shows "cumsum ([0] @ replicate (M mod K) (M div K + 1) @ replicate (K - M mod K) (M div K)) ! i
         = chunk_offset M K i"
proof -
  have r: "M mod K \<le> K" using assms by (simp add: less_imp_le)
  let ?L = "replicate (M mod K) (M div K + 1) @ replicate (K - M mod K) (M div K)"
  have "i < length (0 # ?L)"
    using assms r by simp
  then have "cumsum_from 0 (0 # ?L) ! i = 0 + sum_list (take (Suc i) (0 # ?L))"
    by (rule nth_cumsum_from)
  also have "\<dots> = sum_list (take i ?L)"
    by simp
  also have "\<dots> = chunk_offset M K i"
    unfolding chunk_offset_def by (rule sum_take_sizes [OF assms(2) r])
  finally show ?thesis
    by (simp only: cumsum_def append_Cons append_Nil)
qed

lemma chunk_offset_0: "chunk_offset M K 0 = 0"
  by (simp add: chunk_offset_def)

lemma chunk_offset_K: "0 < K \<Longrightarrow> chunk_offset M K K = M"
proof -
  assume "0 < K"
  then have "M mod K \<le> K" by (simp add: less_imp_le)
  then have "min K (M mod K) = M mod K" by simp
  then show ?thesis by (simp add: chunk_offset_def)
qed

lemma chunk_offset_step:
  "chunk_offset M K (Suc i) = chunk_offset M K i + (if i < M mod K then M div K + 1 else M div K)"
  by (simp add: chunk_offset_def min_def)

lemma chunk_offset_mono: "i \<le> j \<Longrightarrow> chunk_offset M K i \<le> chunk_offset M K j"
  unfolding chunk_offset_def
  by (intro add_mono mult_le_mono1 min.mono) simp_all


lemma array_split_offsets:
  assumes "0 < K"
  shows "array_split ary K =
           Inr (map (\<lambda>i. slice ary (chunk_offset (length ary) (nat K) i)
                                   (chunk_offset (length ary) (nat K) (Suc i))) [0..<nat K])"
proof -
  have K: "0 < nat K" using assms by simp
  have "map (\<lambda>i. slice ary
            (cumsum ([0] @ replicate (length ary mod nat K) (length ary div nat K + 1)
               @ replicate (nat K - length ary mod nat K) (length ary div nat K)) ! i)
            (cumsum ([0] @ replicate (length ary mod nat K) (length ary div nat K + 1)
               @ replicate (nat K - length ary mod nat K) (length ary div nat K)) ! (i + 1)))
          [0..<nat K]
      = map (\<lambda>i. slice ary (chunk_offset (length ary) (nat K) i)
                            (chunk_offset (length ary) (nat K) (Suc i))) [0..<nat K]"
  proof (rule map_cong [OF refl])
    fix i assume "i \<in> set [0..<nat K]"
    then have i: "i \<le> nat K" "i + 1 \<le> nat K" by simp_all
    show "slice ary
            (cumsum ([0] @ replicate (length ary mod nat K) (length ary div nat K + 1)
               @ replicate (nat K - length ary mod nat K) (length ary div nat K)) ! i)
            (cumsum ([0] @ replicate (length ary mod nat K) (length ary div nat K + 1)
               @ replicate (nat K - length ary mod nat K) (length ary div nat K)) ! (i + 1))
        = slice ary (chunk_offset (length ary) (nat K) i)
                    (chunk_offset (length ary) (nat K) (Suc i))"
      using div_points_nth [OF K i(1), of "length ary"] div_points_nth [OF K i(2), of "length ary"]
      by simp
  qed
  then show ?thesis
    using assms by (simp add: array_split_def Let_def)
qed

lemma length_slice: "en \<le> length xs \<Longrightarrow> length (slice xs st en) = en - st"
  by (simp add: slice_def)

lemma slice_append:
  assumes "a \<le> b" "b \<le> c"
  shows "slice xs a b @ slice xs b c = slice xs a c"
proof -
  have "slice xs a c = take ((b - a) + (c - b)) (drop a xs)"
    using assms by (simp add: slice_def drop_take)
  also have "\<dots> = take (b - a) (drop a xs) @ take (c - b) (drop (b - a) (drop a xs))"
    by (rule take_add)
  also have "\<dots> = slice xs a b @ slice xs b c"
    using assms by (simp add: slice_def drop_take)
  finally show ?thesis by simp
qed

lemma concat_slices:
  assumes "\<And>i. i < n \<Longrightarrow> f i \<le> f (Suc i)"
  shows "concat (map (\<lambda>i. slice xs (f i) (f (Suc i))) [0..<n]) = slice xs (f 0) (f n)"
  using assms
proof (induction n)
  case 0
  show ?case by (simp add: slice_def)
next
  case (Suc n)
  have mono: "f 0 \<le> f n"
  proof -
    have "\<And>k. k \<le> n \<Longrightarrow> f 0 \<le> f k"
    proof -
      fix k show "k \<le> n \<Longrightarrow> f 0 \<le> f k"
      proof (induction k)
        case 0 show ?case by simp
      next
        case (Suc k)
        then have "f k \<le> f (Suc k)" using Suc.prems Suc_le_lessD less_SucI
          by (metis \<open>\<And>i. i < Suc n \<Longrightarrow> f i \<le> f (Suc i)\<close>)
        with Suc show ?case by simp
      qed
    qed
    then show ?thesis by simp
  qed
  have "concat (map (\<lambda>i. slice xs (f i) (f (Suc i))) [0..<Suc n])
      = slice xs (f 0) (f n) @ slice xs (f n) (f (Suc n))"
    using Suc by simp
  also have "\<dots> = slice xs (f 0) (f (Suc n))"
    using mono Suc.prems [of n] by (simp add: slice_append)
  finally show ?case .
qed

lemma sum_list_steps:
  assumes "\<And>i. i < n \<Longrightarrow> f i \<le> f (Suc i)"
  shows "sum_list (map (\<lambda>i. f (Suc i) - f i) [0..<n]) + f 0 = (f n :: nat)"
  using assms
proof (induction n)
  case 0
  show ?case by simp
next
  case (Suc n)
  then have "sum_list (map (\<lambda>i. f (Suc i) - f i) [0..<n]) + f 0 = f n" by simp
  moreover have "f n \<le> f (Suc n)" using Suc.prems by simp
  ultimately show ?case by simp
qed

text \<open>The chunks of a split: their number, their sizes and their concatenation.\<close>

lemma array_split_parts:
  assumes "0 < K"
  shows "\<exists>chunks. array_split ary K = Inr chunks
           \<and> length chunks = nat K
           \<and> concat chunks = ary
           \<and> (\<forall>i < nat K. length (chunks ! i) =
                (if i < length ary mod nat K then length ary div nat K + 1
                 else length ary div nat K))"
proof -
  define n where "n = nat K"
  define M where "M = length ary"
  define off where "off = chunk_offset M n"
  define chunks where "chunks = map (\<lambda>i. slice ary (off i) (off (Suc i))) [0..<n]"
  have n: "0 < n" using assms by (simp add: n_def)
  have split: "array_split ary K = Inr chunks"
    using array_split_offsets [OF assms, of ary] by (simp add: chunks_def off_def n_def M_def)
  have step: "\<And>i. i < n \<Longrightarrow> off i \<le> off (Suc i)"
    by (simp add: off_def chunk_offset_mono)
  have bound: "\<And>i. i \<le> n \<Longrightarrow> off i \<le> M"
    using chunk_offset_mono [of _ n M n] chunk_offset_K [OF n, of M] by (simp add: off_def)
  have size0: "\<And>i. i < n \<Longrightarrow> length (chunks ! i) = off (Suc i) - off i"
    using bound by (simp add: chunks_def length_slice M_def)
  have size: "\<And>i. i < n \<Longrightarrow> length (chunks ! i) = (if i < M mod n then M div n + 1 else M div n)"
    using size0 by (simp add: off_def chunk_offset_step)
  have "concat chunks = slice ary (off 0) (off n)"
    unfolding chunks_def by (rule concat_slices) (rule step)
  then have cat: "concat chunks = ary"
    using chunk_offset_K [OF n, of M] by (simp add: off_def chunk_offset_0 slice_def M_def)
  show ?thesis
    using split size cat by (auto simp: chunks_def n_def [symmetric] M_def [symmetric])
qed

lemma chunks_beyond_rows_empty:
  assumes "i < n" "M \<le> i"
    and "length c = (if i < M mod n then M div n + 1 else M div n)"
  shows "c = []"
proof -
  from assms have "M < n" by simp
  then have "M div n = 0" "M mod n = M" by simp_all
  with assms show ?thesis by simp
qed

text \<open>
  Claim C4. Splitting \<open>M\<close> rows into \<open>K > 0\<close> parts succeeds and gives \<open>K\<close> chunks:
  with \<open>q = M div K\<close> and \<open>r = M mod K\<close>, chunk \<open>i\<close> has \<open>q + 1\<close> rows for \<open>i < r\<close>
  and \<open>q\<close> rows otherwise; the sizes add up to \<open>M\<close>; the chunks concatenated are the
  input; and \<^verbatim>\<open>chunk_len\<close> starts at 0, ends at \<open>M\<close>, never decreases, and chunk
  \<open>i\<close> is the slice of the input from \<open>chunk_len[i]\<close> to \<open>chunk_len[i+1]\<close>: the ranges
  follow one another with neither a gap nor an overlap.
\<close>

theorem array_split_chunk_sizes:
  assumes "0 < K"
  shows "\<exists>chunks. array_split ary K = Inr chunks
           \<and> length chunks = nat K
           \<and> (\<forall>i < nat K. length (chunks ! i) =
                (if i < length ary mod nat K then length ary div nat K + 1
                 else length ary div nat K))
           \<and> sum_list (map length chunks) = length ary
           \<and> concat chunks = ary
           \<and> length (chunk_len chunks) = nat K + 1
           \<and> chunk_len chunks ! 0 = 0
           \<and> chunk_len chunks ! nat K = length ary
           \<and> (\<forall>i < nat K. chunk_len chunks ! i \<le> chunk_len chunks ! (i + 1)
                \<and> chunks ! i = slice ary (chunk_len chunks ! i) (chunk_len chunks ! (i + 1)))"
proof -
  define n where "n = nat K"
  define M where "M = length ary"
  define off where "off = chunk_offset M n"
  define chunks where "chunks = map (\<lambda>i. slice ary (off i) (off (Suc i))) [0..<n]"
  have n: "0 < n" using assms by (simp add: n_def)
  have split: "array_split ary K = Inr chunks"
    using array_split_offsets [OF assms, of ary] by (simp add: chunks_def off_def n_def M_def)
  have len: "length chunks = n"
    by (simp add: chunks_def)
  have step: "\<And>i. i < n \<Longrightarrow> off i \<le> off (Suc i)"
    by (simp add: off_def chunk_offset_mono)
  have bound: "\<And>i. i \<le> n \<Longrightarrow> off i \<le> M"
    using chunk_offset_mono [of _ n M n] chunk_offset_K [OF n, of M] by (simp add: off_def)
  have size: "\<And>i. i < n \<Longrightarrow> length (chunks ! i) = off (Suc i) - off i"
    using bound by (simp add: chunks_def length_slice M_def)
  have size_rule: "\<And>i. i < n \<Longrightarrow> length (chunks ! i) = (if i < M mod n then M div n + 1 else M div n)"
    using size by (simp add: off_def chunk_offset_step)
  have cat: "concat chunks = ary"
  proof -
    have "concat chunks = slice ary (off 0) (off n)"
      unfolding chunks_def by (rule concat_slices) (rule step)
    then show ?thesis
      using chunk_offset_K [OF n, of M] by (simp add: off_def chunk_offset_0 slice_def M_def)
  qed
  have total: "sum_list (map length chunks) = M"
    using cat by (metis length_concat M_def)
  have lens: "map length chunks = map (\<lambda>i. off (Suc i) - off i) [0..<n]"
    using size by (simp add: chunks_def list_eq_iff_nth_eq)
  have cl_len: "length (chunk_len chunks) = n + 1"
    by (simp add: chunk_len_def cumsum_def length_cumsum_from len)
  have cl_nth: "\<And>i. i \<le> n \<Longrightarrow> chunk_len chunks ! i = off i"
  proof -
    fix i assume i: "i \<le> n"
    then have "i < length (0 # map length chunks)" by (simp add: len)
    then have "cumsum_from 0 (0 # map length chunks) ! i
        = 0 + sum_list (take (Suc i) (0 # map length chunks))"
      by (rule nth_cumsum_from)
    also have "\<dots> = sum_list (map (\<lambda>j. off (Suc j) - off j) [0..<i])"
      using i by (simp add: lens take_map)
    also have "\<dots> = off i"
      using sum_list_steps [of i off] step i by (simp add: off_def chunk_offset_0)
    finally show "chunk_len chunks ! i = off i"
      by (simp only: chunk_len_def cumsum_def append_Cons append_Nil)
  qed
  have parts: "\<And>i. i < n \<Longrightarrow> chunk_len chunks ! i \<le> chunk_len chunks ! (i + 1)
      \<and> chunks ! i = slice ary (chunk_len chunks ! i) (chunk_len chunks ! (i + 1))"
  proof -
    fix i assume i: "i < n"
    then have "chunk_len chunks ! i = off i" "chunk_len chunks ! (i + 1) = off (Suc i)"
      using cl_nth [of i] cl_nth [of "Suc i"] by simp_all
    then show "chunk_len chunks ! i \<le> chunk_len chunks ! (i + 1)
      \<and> chunks ! i = slice ary (chunk_len chunks ! i) (chunk_len chunks ! (i + 1))"
      using step [OF i] i by (simp add: chunks_def)
  qed
  show ?thesis
    using split len size_rule total cat cl_len cl_nth [of 0] cl_nth [of n] parts
      chunk_offset_K [OF n, of M]
    by (auto simp: n_def [symmetric] M_def [symmetric] off_def chunk_offset_0)
qed

theorem array_split_chunk_sizes_witness:
  "\<exists>chunks. array_split [1, 2, 3, 4, 5, 6, 7 :: int] 3 = Inr chunks
      \<and> chunks = [[1, 2, 3], [4, 5], [6, 7]]
      \<and> length chunks = 3 \<and> sum_list (map length chunks) = 7
      \<and> concat chunks = [1, 2, 3, 4, 5, 6, 7]
      \<and> chunk_len chunks = [0, 3, 5, 7]"
proof -
  have ev: "array_split [1, 2, 3, 4, 5, 6, 7 :: int] 3 = Inr [[1, 2, 3], [4, 5], [6, 7]]"
    by code_simp
  have cl: "chunk_len [[1, 2, 3], [4, 5], [6, 7 :: int]] = [0, 3, 5, 7]"
    by code_simp
  have pos: "(0::int) < 3" by simp
  from array_split_chunk_sizes [OF pos, of "[1, 2, 3, 4, 5, 6, 7 :: int]"]
  obtain chunks where c: "array_split [1, 2, 3, 4, 5, 6, 7 :: int] 3 = Inr chunks"
    "length chunks = nat 3" "sum_list (map length chunks) = length [1, 2, 3, 4, 5, 6, 7 :: int]"
    "concat chunks = [1, 2, 3, 4, 5, 6, 7]"
    by blast
  from c(1) ev have "chunks = [[1, 2, 3], [4, 5], [6, 7]]" by simp
  with c cl show ?thesis by simp
qed

section \<open>Masks, worker counts and the caller's arrays\<close>

lemma array_split_length:
  assumes "0 < K"
  shows "\<exists>chunks. array_split ary K = Inr chunks \<and> length chunks = nat K"
  using array_split_offsets [OF assms, of ary] by simp

lemma array_split_empty:
  assumes "0 < K"
  shows "array_split ([] :: 'a list) K = Inr (replicate (nat K) [])"
proof -
  have "map (\<lambda>i. slice ([] :: 'a list) (chunk_offset 0 (nat K) i) (chunk_offset 0 (nat K) (Suc i)))
          [0..<nat K] = replicate (nat K) []"
    by (simp add: slice_def map_replicate_const)
  then show ?thesis
    using array_split_offsets [OF assms, of "[] :: 'a list"] by simp
qed

lemma filter_snd_zip_empty:
  "filter id ms = [] \<Longrightarrow> filter snd (zip xs ms) = []"
proof (induction ms arbitrary: xs)
  case Nil
  show ?case by simp
next
  case (Cons m ms)
  then show ?case by (cases xs) (auto split: if_splits)
qed

lemma getitem_mask_empty:
  "shape m = shape a \<Longrightarrow> count_nonzero m = 0 \<Longrightarrow> getitem_mask a m = Inr []"
  by (simp add: getitem_mask_def count_nonzero_def filter_snd_zip_empty)

lemma put_mask_no_values: "put_mask as ms [] = as"
  by (induction as ms "[] :: 'a list" rule: put_mask.induct) auto

lemma setitem_slice_empty: "setitem_slice [] st en [] = Inr []"
  by (simp add: setitem_slice_def slice_def)

lemma fold_err_empty_chunks:
  "list_all (\<lambda>r. snd r = []) rs \<Longrightarrow>
     fold_err (\<lambda>(i, fit) tmp. setitem_slice tmp (a i) (b i) fit) rs [] = Inr []"
  by (induction rs) (auto simp: setitem_slice_empty)

lemma fit_gamma_results_empty:
  "list_all (\<lambda>r. snd r = [])
     (map (\<lambda>(c, i). fit_gamma_parallel g c i) (zip (replicate n []) [0..<n]))"
  by (auto simp: list_all_iff fit_gamma_parallel_def set_zip)

text \<open>
  Claim C5, on the code: with no mask given, the voxel \<open>[1, -1]\<close> has a channel that is
  not zero, yet the derived mask is false there (the channels' sum is zero) and no row
  reaches the workers.
\<close>

theorem derived_mask_drops_cancelling_channels:
  "ndarray_any [1, - 1]
   \<and> fit_from_model_chunks 1 \<lparr> shape = (1, 1, 1), voxels = [[1, - 1]] \<rparr> None (Some 1) world0
       = Inr (world0, \<lparr> shape = (1, 1, 1), voxels = [False] \<rparr>, 1, [[]])
   \<and> fit_gamma_chunks 1 \<lparr> shape = (1, 1, 1), voxels = [[1, - 1]] \<rparr> None (Some 1) world0
       = Inr (\<lparr> shape = (1, 1, 1), voxels = [False] \<rparr>, 1, [[]])"
proof -
  have s: "array_split ([] :: real list list) 1 = Inr [[]]"
    by code_simp
  show ?thesis
    by (simp add: ndarray_any_def fit_from_model_chunks_def fit_gamma_chunks_def
        sum_astype_bool_def getitem_mask_def s)
qed

text \<open>
  Claim C6, on the code: the caller's mask is true at a voxel with the channels
  \<open>[1, -1]\<close>, so the voxel satisfies the mask and carries nonzero data.
  \<^verbatim>\<open>fit_from_model\<close> multiplies the mask with the mask of the channels' sums, which is
  false there: the mask in use is false and the voxel is left at its default, never
  fitted. \<^verbatim>\<open>fit_gamma\<close>, on the same volume and mask, does fit the voxel.
\<close>

theorem fit_from_model_user_mask_drops_voxel:
  "ndarray_any [1, - 1]
   \<and> voxels (masks (world0\<lparr>masks := (masks world0)(0 := \<lparr> shape = (1, 1, 1), voxels = [True] \<rparr>)\<rparr>) 0) = [True]
   \<and> (case fit_from_model (\<lambda>row. Fitted (length row)) 1
            \<lparr> shape = (1, 1, 1), voxels = [[1, - 1]] \<rparr> (Some 0) (Some 1)
            (world0\<lparr>masks := (masks world0)(0 := \<lparr> shape = (1, 1, 1), voxels = [True] \<rparr>)\<rparr>) of
        Inl e \<Rightarrow> False
      | Inr (w', fit) \<Rightarrow>
          voxels (fit_mask fit) = [False] \<and> voxels (fit_array fit) = [Zero])
   \<and> (case fit_gamma (\<lambda>row. [1, 1, 1, 1]) 1
            \<lparr> shape = (1, 1, 1), voxels = [[1, - 1]] \<rparr> (Some 0) (Some 1)
            (world0\<lparr>masks := (masks world0)(0 := \<lparr> shape = (1, 1, 1), voxels = [True] \<rparr>)\<rparr>) of
        Inl e \<Rightarrow> False
      | Inr (w', fit) \<Rightarrow> voxels fit = [[1, 1, 1, 1]])"
proof -
  have s0: "array_split ([] :: real list list) 1 = Inr [[]]"
    by code_simp
  have s1: "array_split [[1, - 1 :: real]] 1 = Inr [[[1, - 1]]]"
    by code_simp
  have cl0: "chunk_len [[] :: real list list] = [0, 0]"
    by code_simp
  have cl1: "chunk_len [[[1, - 1 :: real]]] = [0, 1]"
    by code_simp
  have a: "ndarray_any [1, - 1]"
    by (simp add: ndarray_any_def)
  have m: "voxels (masks (world0\<lparr>masks := (masks world0)(0 := \<lparr> shape = (1, 1, 1), voxels = [True] \<rparr>)\<rparr>) 0) = [True]"
    by simp
  have f: "case fit_from_model (\<lambda>row. Fitted (length row)) 1
            \<lparr> shape = (1, 1, 1), voxels = [[1, - 1]] \<rparr> (Some 0) (Some 1)
            (world0\<lparr>masks := (masks world0)(0 := \<lparr> shape = (1, 1, 1), voxels = [True] \<rparr>)\<rparr>) of
        Inl e \<Rightarrow> False
      | Inr (w', fit) \<Rightarrow>
          voxels (fit_mask fit) = [False] \<and> voxels (fit_array fit) = [Zero]"
    by (simp add: fit_from_model_def fit_from_model_chunks_def sum_astype_bool_def Let_def
        getitem_mask_def s0 cl0 fit_from_model_parallel_def zeros_def
        n_voxels_def count_nonzero_def setitem_slice_def slice_def setitem_mask_def)
  have g: "case fit_gamma (\<lambda>row. [1, 1, 1, 1]) 1
            \<lparr> shape = (1, 1, 1), voxels = [[1, - 1]] \<rparr> (Some 0) (Some 1)
            (world0\<lparr>masks := (masks world0)(0 := \<lparr> shape = (1, 1, 1), voxels = [True] \<rparr>)\<rparr>) of
        Inl e \<Rightarrow> False
      | Inr (w', fit) \<Rightarrow> voxels fit = [[1, 1, 1, 1]]"
    by (simp add: fit_gamma_def fit_gamma_chunks_def Let_def
        getitem_mask_def s1 cl1 fit_gamma_parallel_def ndarray_any_def zeros_def
        n_voxels_def count_nonzero_def setitem_slice_def slice_def setitem_mask_def)
  show ?thesis
    using a m f g by (intro conjI)
qed

text \<open>
  Claim C8, on the code: the caller's mask is true at both voxels on entry; after
  \<^verbatim>\<open>fit_from_model\<close> has returned it is false at the voxel that holds no data.
\<close>

theorem fit_from_model_overwrites_mask:
  "voxels (masks (world0\<lparr>masks := (masks world0)(0 := \<lparr> shape = (1, 1, 2), voxels = [True, True] \<rparr>)\<rparr>) 0)
     = [True, True]
   \<and> (case fit_from_model (\<lambda>row. Fitted (sum_list row)) 1
            \<lparr> shape = (1, 1, 2), voxels = [[1, 2], [0, 0]] \<rparr> (Some 0) (Some 1)
            (world0\<lparr>masks := (masks world0)(0 := \<lparr> shape = (1, 1, 2), voxels = [True, True] \<rparr>)\<rparr>) of
        Inl e \<Rightarrow> False
      | Inr (w', fit) \<Rightarrow>
          voxels (masks w' 0) = [True, False]
          \<and> voxels (fit_array fit) = [Fit 3, Zero])"
proof -
  have s: "array_split [[1, 2 :: real]] 1 = Inr [[[1, 2]]]"
    by code_simp
  have cl: "chunk_len [[[1, 2 :: real]]] = [0, 1]"
    by code_simp
  have z: "\<And>c :: real fit_cell. replicate 2 c = [c, c]"
    by (simp add: numeral_2_eq_2)
  show ?thesis
    by (simp add: z fit_from_model_def fit_from_model_chunks_def sum_astype_bool_def Let_def
        getitem_mask_def s cl fit_from_model_parallel_def ndarray_any_def zeros_def
        n_voxels_def count_nonzero_def setitem_slice_def slice_def setitem_mask_def)
qed

text \<open>
  Claim C7 as stated fails: for two active voxels and five requested processes the code
  makes five chunks, three of them empty, not \<open>max 1 (min 5 2) = 2\<close>.
\<close>

theorem chunk_count_not_clamped:
  "fit_from_model_chunks 4 \<lparr> shape = (1, 1, 2), voxels = [[1, 2], [3, 4]] \<rparr> None (Some 5) world0
     = Inr (world0, \<lparr> shape = (1, 1, 2), voxels = [True, True] \<rparr>, 5,
            [[[1, 2]], [[3, 4]], [], [], []])
   \<and> length [[[1, 2]], [[3, 4]], [], [], [] :: real list list] \<noteq> max 1 (min 5 2)"
proof -
  have s: "array_split [[1, 2], [3, 4 :: real]] 5 = Inr [[[1, 2]], [[3, 4]], [], [], []]"
    by code_simp
  show ?thesis
    by (simp add: fit_from_model_chunks_def sum_astype_bool_def getitem_mask_def s)
qed

text \<open>
  Claim C7, amended. In \<^verbatim>\<open>fit_from_model\<close> and \<^verbatim>\<open>fit_gamma\<close> a number of processes
  that is \<^verbatim>\<open>None\<close> or not positive is replaced by the detected hardware concurrency.
  With \<open>K\<close> the resulting number, exactly \<open>K\<close> chunks are made, whatever the number \<open>M\<close>
  of active voxels (nothing clamps \<open>K\<close> to \<open>M\<close>): concatenated they are the \<open>M\<close> rows
  the mask in use selects, in order; the first \<open>M mod K\<close> chunks have \<open>M div K + 1\<close>
  rows and the others \<open>M div K\<close>; so every chunk with an index of \<open>M\<close> or more is
  empty.
\<close>

theorem chunk_count_is_worker_count:
  assumes cpu: "0 < cpu_count"
    and sh: "case user_mask of None \<Rightarrow> True | Some a \<Rightarrow> shape (masks w a) = shape data"
    and K: "K = (case nbr_processes of None \<Rightarrow> int cpu_count
                 | Some k \<Rightarrow> if k \<le> 0 then int cpu_count else k)"
    and m1: "mask1 = (case user_mask of None \<Rightarrow> sum_astype_bool data
                      | Some a \<Rightarrow> (masks w a)\<lparr>voxels :=
                          map2 (\<and>) (voxels (masks w a)) (voxels (sum_astype_bool data))\<rparr>)"
    and m2: "mask2 = (case user_mask of None \<Rightarrow> sum_astype_bool data | Some a \<Rightarrow> masks w a)"
  shows "(\<exists>w' chunks.
            fit_from_model_chunks cpu_count data user_mask nbr_processes w
              = Inr (w', mask1, K, chunks)
            \<and> length chunks = nat K
            \<and> concat chunks = map fst (filter snd (zip (voxels data) (voxels mask1)))
            \<and> (\<forall>i < nat K. length (chunks ! i) =
                 (if i < length (concat chunks) mod nat K
                  then length (concat chunks) div nat K + 1
                  else length (concat chunks) div nat K))
            \<and> (\<forall>i < nat K. length (concat chunks) \<le> i \<longrightarrow> chunks ! i = []))
         \<and> (\<exists>chunks.
            fit_gamma_chunks cpu_count data user_mask nbr_processes w
              = Inr (mask2, K, chunks)
            \<and> length chunks = nat K
            \<and> concat chunks = map fst (filter snd (zip (voxels data) (voxels mask2)))
            \<and> (\<forall>i < nat K. length (chunks ! i) =
                 (if i < length (concat chunks) mod nat K
                  then length (concat chunks) div nat K + 1
                  else length (concat chunks) div nat K))
            \<and> (\<forall>i < nat K. length (concat chunks) \<le> i \<longrightarrow> chunks ! i = []))"
proof -
  have Kpos: "0 < K"
    using cpu by (simp add: K split: option.splits)
  have parts: "\<And>rows :: real list list. \<exists>chunks. array_split rows K = Inr chunks
      \<and> length chunks = nat K \<and> concat chunks = rows
      \<and> (\<forall>i < nat K. length (chunks ! i) =
            (if i < length (concat chunks) mod nat K
             then length (concat chunks) div nat K + 1
             else length (concat chunks) div nat K))
      \<and> (\<forall>i < nat K. length (concat chunks) \<le> i \<longrightarrow> chunks ! i = [])"
  proof -
    fix rows :: "real list list"
    from array_split_parts [OF Kpos, of rows]
    obtain chunks where c: "array_split rows K = Inr chunks" "length chunks = nat K"
      "concat chunks = rows"
      and sz: "\<forall>i < nat K. length (chunks ! i) =
                (if i < length rows mod nat K then length rows div nat K + 1
                 else length rows div nat K)"
      by blast
    have "\<forall>i < nat K. length rows \<le> i \<longrightarrow> chunks ! i = []"
      using sz chunks_beyond_rows_empty [of _ "nat K" "length rows"] by blast
    with c sz show "\<exists>chunks. array_split rows K = Inr chunks
      \<and> length chunks = nat K \<and> concat chunks = rows
      \<and> (\<forall>i < nat K. length (chunks ! i) =
            (if i < length (concat chunks) mod nat K
             then length (concat chunks) div nat K + 1
             else length (concat chunks) div nat K))
      \<and> (\<forall>i < nat K. length (concat chunks) \<le> i \<longrightarrow> chunks ! i = [])"
      by auto
  qed
  have sh1: "shape mask1 = shape data"
    using sh by (simp add: m1 sum_astype_bool_def split: option.splits)
  have sh2: "shape mask2 = shape data"
    using sh by (simp add: m2 sum_astype_bool_def split: option.splits)
  have nbr: "(case nbr_processes of None \<Rightarrow> int cpu_count
              | Some k \<Rightarrow> if k \<le> 0 then int cpu_count else k) = K"
    by (simp add: K)
  from parts [of "map fst (filter snd (zip (voxels data) (voxels mask1)))"]
  obtain chunks1 where c1: "array_split (map fst (filter snd (zip (voxels data) (voxels mask1)))) K
        = Inr chunks1"
    and p1: "length chunks1 = nat K"
      "concat chunks1 = map fst (filter snd (zip (voxels data) (voxels mask1)))"
      "\<forall>i < nat K. length (chunks1 ! i) =
            (if i < length (concat chunks1) mod nat K
             then length (concat chunks1) div nat K + 1
             else length (concat chunks1) div nat K)"
      "\<forall>i < nat K. length (concat chunks1) \<le> i \<longrightarrow> chunks1 ! i = []"
    by blast
  have a: "\<exists>w'. fit_from_model_chunks cpu_count data user_mask nbr_processes w
      = Inr (w', mask1, K, chunks1)"
  proof (cases user_mask)
    case None
    then have eq: "sum_astype_bool data = mask1"
      by (simp add: m1)
    show ?thesis
      using None sh1 c1
      by (simp add: fit_from_model_chunks_def Let_def nbr eq getitem_mask_def)
  next
    case (Some a)
    then have eq: "(masks w a)\<lparr>voxels := map2 (\<and>) (voxels (masks w a))
                      (voxels (sum_astype_bool data))\<rparr> = mask1"
      by (simp add: m1)
    have same: "shape (masks w a) = shape (sum_astype_bool data)"
      using sh Some by (simp add: sum_astype_bool_def)
    show ?thesis
      using Some sh1 c1
      by (simp add: fit_from_model_chunks_def Let_def nbr same eq getitem_mask_def)
  qed
  from parts [of "map fst (filter snd (zip (voxels data) (voxels mask2)))"]
  obtain chunks2 where c2: "array_split (map fst (filter snd (zip (voxels data) (voxels mask2)))) K
        = Inr chunks2"
    and p2: "length chunks2 = nat K"
      "concat chunks2 = map fst (filter snd (zip (voxels data) (voxels mask2)))"
      "\<forall>i < nat K. length (chunks2 ! i) =
            (if i < length (concat chunks2) mod nat K
             then length (concat chunks2) div nat K + 1
             else length (concat chunks2) div nat K)"
      "\<forall>i < nat K. length (concat chunks2) \<le> i \<longrightarrow> chunks2 ! i = []"
    by blast
  have b: "fit_gamma_chunks cpu_count data user_mask nbr_processes w = Inr (mask2, K, chunks2)"
    unfolding fit_gamma_chunks_def Let_def nbr m2 [symmetric]
    by (simp add: getitem_mask_def sh2 c2)
  from a obtain w' where a': "fit_from_model_chunks cpu_count data user_mask nbr_processes w
      = Inr (w', mask1, K, chunks1)"
    by blast
  have one: "\<exists>w' chunks.
            fit_from_model_chunks cpu_count data user_mask nbr_processes w
              = Inr (w', mask1, K, chunks)
            \<and> length chunks = nat K
            \<and> concat chunks = map fst (filter snd (zip (voxels data) (voxels mask1)))
            \<and> (\<forall>i < nat K. length (chunks ! i) =
                 (if i < length (concat chunks) mod nat K
                  then length (concat chunks) div nat K + 1
                  else length (concat chunks) div nat K))
            \<and> (\<forall>i < nat K. length (concat chunks) \<le> i \<longrightarrow> chunks ! i = [])"
    using a' p1 by (intro exI conjI)
  have two: "\<exists>chunks.
            fit_gamma_chunks cpu_count data user_mask nbr_processes w
              = Inr (mask2, K, chunks)
            \<and> length chunks = nat K
            \<and> concat chunks = map fst (filter snd (zip (voxels data) (voxels mask2)))
            \<and> (\<forall>i < nat K. length (chunks ! i) =
                 (if i < length (concat chunks) mod nat K
                  then length (concat chunks) div nat K + 1
                  else length (concat chunks) div nat K))
            \<and> (\<forall>i < nat K. length (concat chunks) \<le> i \<longrightarrow> chunks ! i = [])"
    using b p2 by (intro exI conjI)
  show ?thesis
    using one two by (rule conjI)
qed

theorem chunk_count_is_worker_count_witness:
  "(\<exists>w' chunks.
      fit_from_model_chunks 4 \<lparr> shape = (1, 1, 2), voxels = [[1, 2], [3, 4]] \<rparr> None (Some (- 1)) world0
        = Inr (w', \<lparr> shape = (1, 1, 2), voxels = [True, True] \<rparr>, 4, chunks)
      \<and> length chunks = 4 \<and> concat chunks = [[1, 2], [3, 4]]
      \<and> chunks ! 2 = [] \<and> chunks ! 3 = [])
   \<and> (\<exists>chunks.
      fit_gamma_chunks 4 \<lparr> shape = (1, 1, 2), voxels = [[1, 2], [3, 4]] \<rparr> None (Some (- 1)) world0
        = Inr (\<lparr> shape = (1, 1, 2), voxels = [True, True] \<rparr>, 4, chunks)
      \<and> length chunks = 4 \<and> concat chunks = [[1, 2], [3, 4]]
      \<and> chunks ! 2 = [] \<and> chunks ! 3 = [])"
proof -
  let ?data = "\<lparr> shape = (1, 1, 2), voxels = [[1, 2], [3, 4 :: real]] \<rparr>"
  let ?m = "\<lparr> shape = (1, 1, 2), voxels = [True, True] \<rparr>"
  have cpu: "0 < (4 :: nat)" by simp
  have sh: "case (None :: nat option) of None \<Rightarrow> True
            | Some a \<Rightarrow> shape (masks world0 a) = shape ?data"
    by simp
  have K: "(4 :: int) = (case Some (- 1) of None \<Rightarrow> int 4
                         | Some k \<Rightarrow> if k \<le> 0 then int 4 else k)"
    by simp
  have m1: "?m = (case (None :: nat option) of None \<Rightarrow> sum_astype_bool ?data
                  | Some a \<Rightarrow> (masks world0 a)\<lparr>voxels :=
                      map2 (\<and>) (voxels (masks world0 a)) (voxels (sum_astype_bool ?data))\<rparr>)"
    by (simp add: sum_astype_bool_def)
  have m2: "?m = (case (None :: nat option) of None \<Rightarrow> sum_astype_bool ?data
                  | Some a \<Rightarrow> masks world0 a)"
    by (simp add: sum_astype_bool_def)
  note T = chunk_count_is_worker_count [OF cpu sh K m1 m2]
  have rows: "map fst (filter snd (zip (voxels ?data) (voxels ?m))) = [[1, 2], [3, 4]]"
    by simp
  from T [THEN conjunct1] obtain w' c1 where
    a: "fit_from_model_chunks 4 ?data None (Some (- 1)) world0 = Inr (w', ?m, 4, c1)"
    and la: "length c1 = nat 4"
    and ca: "concat c1 = map fst (filter snd (zip (voxels ?data) (voxels ?m)))"
    and ea: "\<forall>i < nat 4. length (concat c1) \<le> i \<longrightarrow> c1 ! i = []"
    by (elim exE conjE)
  from T [THEN conjunct2] obtain c2 where
    b: "fit_gamma_chunks 4 ?data None (Some (- 1)) world0 = Inr (?m, 4, c2)"
    and lb: "length c2 = nat 4"
    and cb: "concat c2 = map fst (filter snd (zip (voxels ?data) (voxels ?m)))"
    and eb: "\<forall>i < nat 4. length (concat c2) \<le> i \<longrightarrow> c2 ! i = []"
    by (elim exE conjE)
  have ca': "concat c1 = [[1, 2], [3, 4]]" and cb': "concat c2 = [[1, 2], [3, 4]]"
    using ca cb rows by simp_all
  have e1: "c1 ! 2 = []" "c1 ! 3 = []"
    using ea [rule_format, of 2] ea [rule_format, of 3] ca' by simp_all
  have e2: "c2 ! 2 = []" "c2 ! 3 = []"
    using eb [rule_format, of 2] eb [rule_format, of 3] cb' by simp_all
  have la': "length c1 = 4" and lb': "length c2 = 4"
    using la lb by simp_all
  have one: "\<exists>w' chunks.
      fit_from_model_chunks 4 ?data None (Some (- 1)) world0 = Inr (w', ?m, 4, chunks)
      \<and> length chunks = 4 \<and> concat chunks = [[1, 2], [3, 4]]
      \<and> chunks ! 2 = [] \<and> chunks ! 3 = []"
    using a la' ca' e1 by (intro exI conjI)
  have two: "\<exists>chunks.
      fit_gamma_chunks 4 ?data None (Some (- 1)) world0 = Inr (?m, 4, chunks)
      \<and> length chunks = 4 \<and> concat chunks = [[1, 2], [3, 4]]
      \<and> chunks ! 2 = [] \<and> chunks ! 3 = []"
    using b lb' cb' e2 by (intro exI conjI)
  show ?thesis
    using one two by (rule conjI)
qed

text \<open>
  Claim C9 as stated fails: on a volume with no active voxel \<^verbatim>\<open>fit_gamma\<close> returns
  zeros and leaves the list of warnings empty.
\<close>

theorem fit_gamma_empty_mask_no_warning:
  "fit_gamma (\<lambda>row. [1, 1, 1, 1]) 2 \<lparr> shape = (1, 1, 2), voxels = [[0, 0], [0, 0]] \<rparr> None None world0
     = Inr (world0, \<lparr> shape = (1, 1, 2), voxels = [[0, 0, 0, 0], [0, 0, 0, 0]] \<rparr>)
   \<and> warnings world0 = []"
proof -
  have s: "array_split ([] :: real list list) 2 = Inr [[], []]"
    by code_simp
  have cl: "chunk_len [[], [] :: real list list] = [0, 0, 0]"
    by code_simp
  have z: "replicate 2 [0, 0, 0, 0 :: real] = [[0, 0, 0, 0], [0, 0, 0, 0]]"
    by code_simp
  show ?thesis
    by (simp add: fit_gamma_def fit_gamma_chunks_def sum_astype_bool_def getitem_mask_def
        Let_def s cl z fit_gamma_parallel_def zeros_def n_voxels_def count_nonzero_def
        setitem_slice_def slice_def setitem_mask_def world0_def)
qed

text \<open>
  Claim C9, amended. When the mask in use has no active voxel, \<^verbatim>\<open>fit_gamma\<close> raises
  nothing and returns the volume of the input's shape with every entry at its zero
  default; it logs no warning (the world is returned as it was).
  \<^verbatim>\<open>SeedGenerator.__init__\<close>, given a seeding image with no positive voxel, makes no
  seed and logs one warning.
\<close>

theorem empty_mask_all_default:
  assumes cpu: "0 < cpu_count"
    and sh: "case user_mask of None \<Rightarrow> True | Some a \<Rightarrow> shape (masks w a) = shape data"
    and empty: "count_nonzero (case user_mask of None \<Rightarrow> sum_astype_bool data
                                | Some a \<Rightarrow> masks w a) = 0"
    and img: "list_all (\<lambda>v. \<not> 0 < v) (voxels img)"
  shows "fit_gamma gamma_data2fit cpu_count data user_mask nbr_processes w
           = Inr (w, zeros (shape data) [0, 0, 0, 0])
         \<and> seeds (fst (SeedGenerator_init zooms img w)) = []
         \<and> snd (SeedGenerator_init zooms img w)
             = w\<lparr>warnings := warnings w @ [''There are positive voxels in the seeding mask!'']\<rparr>"
proof -
  define K where "K = (case nbr_processes of None \<Rightarrow> int cpu_count
                       | Some k \<Rightarrow> if k \<le> 0 then int cpu_count else k)"
  define m where "m = (case user_mask of None \<Rightarrow> sum_astype_bool data | Some a \<Rightarrow> masks w a)"
  have K: "0 < K"
    using cpu by (simp add: K_def split: option.splits)
  have eq: "shape m = shape data"
    using sh by (simp add: m_def sum_astype_bool_def split: option.splits)
  have cnt: "count_nonzero m = 0"
    using empty by (simp add: m_def)
  have rows: "getitem_mask data m = Inr []"
    using eq cnt by (rule getitem_mask_empty)
  have chunks: "fit_gamma_chunks cpu_count data user_mask nbr_processes w
      = Inr (m, K, replicate (nat K) [])"
    by (simp add: fit_gamma_chunks_def K_def [symmetric] m_def [symmetric] Let_def rows
        array_split_empty [OF K])
  have loop: "\<And>a b. fold_err (\<lambda>(i, fit) tmp. setitem_slice tmp (a i) (b i) fit)
               (map (\<lambda>(c, i). fit_gamma_parallel gamma_data2fit c i)
                    (zip (replicate (nat K) []) [0..<nat K])) [] = Inr []"
    by (rule fold_err_empty_chunks) (rule fit_gamma_results_empty)
  have put: "setitem_mask (zeros (shape data) [0, 0, 0, 0 :: real]) m []
      = Inr (zeros (shape data) [0, 0, 0, 0])"
    using eq cnt by (simp add: setitem_mask_def zeros_def put_mask_no_values)
  have gamma: "fit_gamma gamma_data2fit cpu_count data user_mask nbr_processes w
      = Inr (w, zeros (shape data) [0, 0, 0, 0])"
    by (simp add: fit_gamma_def chunks Let_def cnt loop put)
  have none: "filter (\<lambda>i. 0 < voxels img ! i) [0..<length (voxels img)] = []"
    using img by (auto simp: filter_empty_conv list_all_length)
  have seed: "seeds (fst (SeedGenerator_init zooms img w)) = []
      \<and> snd (SeedGenerator_init zooms img w)
          = w\<lparr>warnings := warnings w @ [''There are positive voxels in the seeding mask!'']\<rparr>"
    by (simp add: SeedGenerator_init_def none)
  show ?thesis
    using gamma seed by simp
qed

theorem empty_mask_all_default_witness:
  "fit_gamma (\<lambda>row. [1, 1, 1, 1]) 2 \<lparr> shape = (1, 1, 2), voxels = [[0, 0], [0, 0]] \<rparr> None (Some 3) world0
     = Inr (world0, zeros (1, 1, 2) [0, 0, 0, 0])
   \<and> seeds (fst (SeedGenerator_init (1, 1, 1) \<lparr> shape = (1, 1, 2), voxels = [0, - 1] \<rparr> world0)) = []
   \<and> warnings (snd (SeedGenerator_init (1, 1, 1) \<lparr> shape = (1, 1, 2), voxels = [0, - 1] \<rparr> world0))
       = [''There are positive voxels in the seeding mask!'']"
proof -
  have cpu: "0 < (2 :: nat)" by simp
  have sh: "case (None :: nat option) of None \<Rightarrow> True
            | Some a \<Rightarrow> shape (masks world0 a)
                = shape \<lparr> shape = (1, 1, 2), voxels = [[0, 0], [0, 0 :: real]] \<rparr>"
    by simp
  have empty: "count_nonzero (case (None :: nat option) of
        None \<Rightarrow> sum_astype_bool \<lparr> shape = (1, 1, 2), voxels = [[0, 0], [0, 0]] \<rparr>
      | Some a \<Rightarrow> masks world0 a) = 0"
    by (simp add: count_nonzero_def sum_astype_bool_def)
  have img: "list_all (\<lambda>v. \<not> 0 < v) (voxels \<lparr> shape = (1, 1, 2), voxels = [0, - 1 :: real] \<rparr>)"
    by simp
  show ?thesis
    using empty_mask_all_default [OF cpu sh empty img, where gamma_data2fit = "\<lambda>row. [1, 1, 1, 1]"
        and nbr_processes = "Some 3" and zooms = "(1, 1, 1)"]
    by (simp add: world0_def)
qed

section \<open>The maps of \<^verbatim>\<open>maps_from_sh\<close> and the number of chunks\<close>

lemma combine_maxima_global:
  "snd (combine_maxima acc r) = py_max (snd acc) (snd r)"
  by (cases acc, cases r) (simp add: combine_maxima_def)

lemma reassemble_step_maxima:
  "maps_reassemble_step cl npeaks res st = Inr st' \<Longrightarrow>
     (all_time_max_odf st', all_time_global_max st')
       = combine_maxima (all_time_max_odf st, all_time_global_max st)
           (max_odf (snd res), global_max (snd res))"
  by (cases res)
     (auto simp: maps_reassemble_step_def bind_err_def split: prod.splits sum.splits)

text \<open>
  The running maxima after the loop over the results are the fold of
  \<open>combine_maxima\<close> over the chunks' maxima, whatever the arrays hold.
\<close>

lemma reassemble_loop_maxima:
  "fold_err (maps_reassemble_step cl npeaks) results st = Inr st' \<Longrightarrow>
     (all_time_max_odf st', all_time_global_max st')
       = fold (\<lambda>res acc. combine_maxima acc (max_odf (snd res), global_max (snd res))) results
           (all_time_max_odf st, all_time_global_max st)"
proof (induction results arbitrary: st)
  case Nil
  then show ?case by simp
next
  case (Cons res results)
  from Cons.prems obtain st1 where s1: "maps_reassemble_step cl npeaks res st = Inr st1"
    and rest: "fold_err (maps_reassemble_step cl npeaks) results st1 = Inr st'"
    by (auto split: sum.splits)
  from Cons.IH [OF rest] reassemble_step_maxima [OF s1] show ?case by simp
qed

text \<open>The second running maximum is the plain fold of the chunks' \<^verbatim>\<open>global_max\<close>.\<close>

lemma all_time_global_max_fold:
  "snd (fold (\<lambda>res acc. combine_maxima acc res) rs acc)
     = fold (\<lambda>res g. py_max g (snd res)) rs (snd acc)"
  by (induction rs arbitrary: acc) (simp_all add: combine_maxima_global)

lemma sqrt_81: "sqrt 81 = 9"
  by (rule real_sqrt_unique) simp_all

lemma sqrt_36: "sqrt 36 = 6"
  by (rule real_sqrt_unique) simp_all

lemma gfa_real_lib_nonneg:
  "\<not> gfa real_lib [6, 3] < 0" "\<not> gfa real_lib [4, 2] < 0"
  by (simp_all add: real_lib_def gfa_formula_def Let_def)

text \<open>
  Claim C2, on the code: three chunks with \<^verbatim>\<open>max_odf\<close> 3, 7 and 2 (and
  \<^verbatim>\<open>global_max\<close> 1 each) leave \<^verbatim>\<open>all_time_max_odf\<close> at 2, not at the maximum 7:
  line 382 folds each chunk's \<^verbatim>\<open>max_odf\<close> into \<^verbatim>\<open>all_time_global_max\<close>, not into
  \<^verbatim>\<open>all_time_max_odf\<close>. The other maximum is folded as claimed.
\<close>

theorem all_time_max_odf_not_the_maximum:
  "fold (\<lambda>res acc. combine_maxima acc res) [(3, Fin 1), (7, Fin 1), (2, Fin 1)] (NegInf, NegInf)
     = (Fin 2, Fin 1)"
  by (simp add: combine_maxima_def py_max_def)


text \<open>The workers' results on the example of claim C1: one chunk of two voxels, and two chunks of one.\<close>

lemma worker_both:
  "\<exists>afd gf. maps_from_sh_parallel real_lib [[3], [2]] [[6], [4]] [[0], [0]] 1 [[2, 1]]
       [[1, 0, 0], [- 1, 0, 0]] 0 0
   = (0, \<lparr> nufo_map = [1, 1], afd_max = [6, 4], afd_sum = afd,
       rgb_map = [[Fin 9, Fin 0, Fin 0], [Fin 6, Fin 0, Fin 0]],
       gfa_map = gf, qa_map = QaVec [2], max_odf = 9, global_max = Fin 6 \<rparr>)
     \<and> length afd = 2 \<and> length gf = 2"
  apply (simp add: maps_from_sh_parallel_def maps_voxel_def Let_def ndarray_any_def dot_sh_B_def
      dot_abs_vertices_def linalg_norm_def amax_def amin_def py_max_def gfa_real_lib_nonneg
      upt_rec numeral_2_eq_2)
  apply (simp add: real_lib_def sqrt_81 sqrt_36)
  done

lemma worker_first:
  "\<exists>afd gf. maps_from_sh_parallel real_lib [[3]] [[6]] [[0]] 1 [[2, 1]]
       [[1, 0, 0], [- 1, 0, 0]] 0 0
   = (0, \<lparr> nufo_map = [1], afd_max = [6], afd_sum = afd,
       rgb_map = [[Fin 9, Fin 0, Fin 0]],
       gfa_map = gf, qa_map = QaVec [3], max_odf = 9, global_max = Fin 6 \<rparr>)
     \<and> length afd = 1 \<and> length gf = 1"
  apply (simp add: maps_from_sh_parallel_def maps_voxel_def Let_def ndarray_any_def dot_sh_B_def
      dot_abs_vertices_def linalg_norm_def amax_def amin_def py_max_def gfa_real_lib_nonneg
      upt_rec numeral_2_eq_2)
  apply (simp add: real_lib_def sqrt_81 sqrt_36)
  done

lemma worker_second:
  "\<exists>afd gf. maps_from_sh_parallel real_lib [[2]] [[4]] [[0]] 1 [[2, 1]]
       [[1, 0, 0], [- 1, 0, 0]] 0 1
   = (1, \<lparr> nufo_map = [1], afd_max = [4], afd_sum = afd,
       rgb_map = [[Fin 6, Fin 0, Fin 0]],
       gfa_map = gf, qa_map = QaVec [2], max_odf = 6, global_max = Fin 4 \<rparr>)
     \<and> length afd = 1 \<and> length gf = 1"
  apply (simp add: maps_from_sh_parallel_def maps_voxel_def Let_def ndarray_any_def dot_sh_B_def
      dot_abs_vertices_def linalg_norm_def amax_def amin_def py_max_def gfa_real_lib_nonneg
      upt_rec numeral_2_eq_2)
  apply (simp add: real_lib_def sqrt_81 sqrt_36)
  done

lemma maps_from_sh_one_chunk:
  "case maps_from_sh real_lib [[2, 1]] 4
            \<lparr> shape = (1, 1, 2), voxels = [[3], [2]] \<rparr>
            \<lparr> shape = (1, 1, 2), voxels = [[[1, 0, 0]], [[1, 0, 0]]] \<rparr>
            \<lparr> shape = (1, 1, 2), voxels = [[6], [4]] \<rparr>
            \<lparr> shape = (1, 1, 2), voxels = [[0], [0]] \<rparr>
            1 [[1, 0, 0], [- 1, 0, 0]] None 0 (Some 1) world0 of
     Inl e \<Rightarrow> False
   | Inr (w, r) \<Rightarrow>
       voxels (rgb_map_array r) = [[Fin 255, Fin 0, Fin 0], [Fin 170, Fin 0, Fin 0]]
       \<and> voxels (qa_map_array r) = [[Fin (1 / 3)], [Fin (1 / 3)]]"
proof -
  obtain afd gf where w: "maps_from_sh_parallel real_lib [[3], [2]] [[6], [4]] [[0], [0]] 1 [[2, 1]]
       [[1, 0, 0], [- 1, 0, 0]] 0 0
   = (0, \<lparr> nufo_map = [1, 1], afd_max = [6, 4], afd_sum = afd,
       rgb_map = [[Fin 9, Fin 0, Fin 0], [Fin 6, Fin 0, Fin 0]],
       gfa_map = gf, qa_map = QaVec [2], max_odf = 9, global_max = Fin 6 \<rparr>)"
    and len: "length afd = 2" "length gf = 2"
    using worker_both by blast
  have s: "array_split [[3], [2 :: real]] 1 = Inr [[[3], [2]]]"
    "array_split [[[1, 0, 0]], [[1, 0, 0 :: real]]] 1 = Inr [[[[1, 0, 0]], [[1, 0, 0]]]]"
    "array_split [[6], [4 :: real]] 1 = Inr [[[6], [4]]]"
    "array_split [[0], [0 :: int]] 1 = Inr [[[0], [0]]]"
    by code_simp+
  have cl: "chunk_len [[[3], [2 :: real]]] = [0, 2]"
    by code_simp
  show ?thesis
    using len w by (simp add: s cl maps_from_sh_def bind_err_def getitem_mask_def sum_astype_bool_def
        count_nonzero_def maps_reassemble_step_def combine_maxima_def py_max_def
        setitem_slice_def setitem_slice_qa_def slice_def setitem_mask_def zeros_def n_voxels_def
        Let_def numeral_2_eq_2)
qed

lemma maps_from_sh_two_chunks:
  "case maps_from_sh real_lib [[2, 1]] 4
            \<lparr> shape = (1, 1, 2), voxels = [[3], [2]] \<rparr>
            \<lparr> shape = (1, 1, 2), voxels = [[[1, 0, 0]], [[1, 0, 0]]] \<rparr>
            \<lparr> shape = (1, 1, 2), voxels = [[6], [4]] \<rparr>
            \<lparr> shape = (1, 1, 2), voxels = [[0], [0]] \<rparr>
            1 [[1, 0, 0], [- 1, 0, 0]] None 0 (Some 2) world0 of
     Inl e \<Rightarrow> False
   | Inr (w, r) \<Rightarrow>
       voxels (rgb_map_array r) = [[Fin (765 / 2), Fin 0, Fin 0], [Fin 255, Fin 0, Fin 0]]
       \<and> voxels (qa_map_array r) = [[Fin (1 / 2)], [Fin (1 / 3)]]"
proof -
  obtain afd0 gf0 where w0: "maps_from_sh_parallel real_lib [[3]] [[6]] [[0]] 1 [[2, 1]]
       [[1, 0, 0], [- 1, 0, 0]] 0 0
   = (0, \<lparr> nufo_map = [1], afd_max = [6], afd_sum = afd0,
       rgb_map = [[Fin 9, Fin 0, Fin 0]],
       gfa_map = gf0, qa_map = QaVec [3], max_odf = 9, global_max = Fin 6 \<rparr>)"
    and len0: "length afd0 = 1" "length gf0 = 1"
    using worker_first by blast
  obtain afd1 gf1 where w1: "maps_from_sh_parallel real_lib [[2]] [[4]] [[0]] 1 [[2, 1]]
       [[1, 0, 0], [- 1, 0, 0]] 0 1
   = (1, \<lparr> nufo_map = [1], afd_max = [4], afd_sum = afd1,
       rgb_map = [[Fin 6, Fin 0, Fin 0]],
       gfa_map = gf1, qa_map = QaVec [2], max_odf = 6, global_max = Fin 4 \<rparr>)"
    and len1: "length afd1 = 1" "length gf1 = 1"
    using worker_second by blast
  have s: "array_split [[3], [2 :: real]] 2 = Inr [[[3]], [[2]]]"
    "array_split [[[1, 0, 0]], [[1, 0, 0 :: real]]] 2 = Inr [[[[1, 0, 0]]], [[[1, 0, 0]]]]"
    "array_split [[6], [4 :: real]] 2 = Inr [[[6]], [[4]]]"
    "array_split [[0], [0 :: int]] 2 = Inr [[[0]], [[0]]]"
    by code_simp+
  have cl: "chunk_len [[[3]], [[2 :: real]]] = [0, 1, 2]"
    by code_simp
  show ?thesis
    using len0 len1 w0 w1 by (simp add: s cl upt_rec maps_from_sh_def bind_err_def getitem_mask_def sum_astype_bool_def
        count_nonzero_def maps_reassemble_step_def combine_maxima_def py_max_def
        setitem_slice_def setitem_slice_qa_def slice_def setitem_mask_def zeros_def n_voxels_def
        Let_def numeral_2_eq_2)
qed

text \<open>
  Claim C1, on the code: the same two voxels, the same sphere and the same peaks, with
  one process and with two. The colour map and the QA map that \<^verbatim>\<open>maps_from_sh\<close>
  returns differ: with two chunks \<^verbatim>\<open>all_time_max_odf\<close> ends at 6 and not at 9
  (line 382), so the colours are divided by another number; and each chunk's
  \<^verbatim>\<open>qa_map\<close> is the single row of the last voxel the worker handled (line 279), so
  the rows depend on where the chunks are cut.
\<close>

theorem maps_from_sh_depends_on_chunks:
  "(case maps_from_sh real_lib [[2, 1]] 4
            \<lparr> shape = (1, 1, 2), voxels = [[3], [2]] \<rparr>
            \<lparr> shape = (1, 1, 2), voxels = [[[1, 0, 0]], [[1, 0, 0]]] \<rparr>
            \<lparr> shape = (1, 1, 2), voxels = [[6], [4]] \<rparr>
            \<lparr> shape = (1, 1, 2), voxels = [[0], [0]] \<rparr>
            1 [[1, 0, 0], [- 1, 0, 0]] None 0 (Some 1) world0 of
      Inl e \<Rightarrow> False
    | Inr (w, r) \<Rightarrow>
        voxels (rgb_map_array r) = [[Fin 255, Fin 0, Fin 0], [Fin 170, Fin 0, Fin 0]]
        \<and> voxels (qa_map_array r) = [[Fin (1 / 3)], [Fin (1 / 3)]])
   \<and> (case maps_from_sh real_lib [[2, 1]] 4
            \<lparr> shape = (1, 1, 2), voxels = [[3], [2]] \<rparr>
            \<lparr> shape = (1, 1, 2), voxels = [[[1, 0, 0]], [[1, 0, 0]]] \<rparr>
            \<lparr> shape = (1, 1, 2), voxels = [[6], [4]] \<rparr>
            \<lparr> shape = (1, 1, 2), voxels = [[0], [0]] \<rparr>
            1 [[1, 0, 0], [- 1, 0, 0]] None 0 (Some 2) world0 of
      Inl e \<Rightarrow> False
    | Inr (w, r) \<Rightarrow>
        voxels (rgb_map_array r) = [[Fin (765 / 2), Fin 0, Fin 0], [Fin 255, Fin 0, Fin 0]]
        \<and> voxels (qa_map_array r) = [[Fin (1 / 2)], [Fin (1 / 3)]])"
  using maps_from_sh_one_chunk maps_from_sh_two_chunks by (rule conjI)

end
